theory Spec2Isabelle
  imports Main "HOL-Library.Word" "HOL-Library.Sublist" "HOL-Library.Code_Target_Numeral"
begin

section \<open>Varbinds (varbind.go)\<close>

text \<open>
  An object identifier is a Go slice of non-negative sub-identifiers; a nil slice and an
  empty slice are both the empty list. Octet strings and IP addresses are byte slices.
  The struct types of varbind.go that carry \<^verbatim>\<open>encodeValue\<close> and \<^verbatim>\<open>decodeValue\<close>
  methods (and so implement the \<^verbatim>\<open>Varbind\<close> interface) are the first six constructors
  below. \<^verbatim>\<open>Counter32Varbind\<close>, \<^verbatim>\<open>Gauge32Varbind\<close>, \<^verbatim>\<open>TimeTicksVarbind\<close>,
  \<^verbatim>\<open>OpaqueVarbind\<close>, \<^verbatim>\<open>NsapAddressVarbind\<close>, \<^verbatim>\<open>Counter64Varbind\<close> and
  \<^verbatim>\<open>Uint32Varbind\<close> have neither method: they are no \<^verbatim>\<open>Varbind\<close> and cannot be
  handed to \<^verbatim>\<open>encodeVarbind\<close>.
\<close>

type_synonym byte = "8 word"
type_synonym ObjectIdentifier = "nat list"

text \<open>
  A \<^verbatim>\<open>*BitString\<close> is a pointer: \<open>None\<close> is nil. The \<^verbatim>\<open>BitString\<close> struct itself is
  not part of the sources; it is kept as the content octets it is marshalled to.
\<close>

type_synonym BitString = "byte list"

text \<open>
  The tagged sum of the varbind structs; \<open>getOid\<close> reads the embedded
  \<^verbatim>\<open>baseVarbind\<close>. The first six constructors are the structs of varbind.go. The
  seventh is modelled from the spec: \<open>NoSuchObjectVarbind\<close> is the exception marker
  of the data model (section 3; section 6 gives it tag 0x80, an implicit NULL), which the
  agent builds with \<^verbatim>\<open>NewNoSuchObjectVarbind\<close>; its struct is missing from the sources.
\<close>

datatype Varbind =
    IntegerVarbind (getOid: ObjectIdentifier) (intVal: "32 word")
  | BitStringVarbind (getOid: ObjectIdentifier) (bitsVal: "BitString option")
  | OctetStringVarbind (getOid: ObjectIdentifier) (octetsVal: "byte list")
  | NullVarbind (getOid: ObjectIdentifier)
  | ObjectIdentifierVarbind (getOid: ObjectIdentifier) (oidVal: ObjectIdentifier)
  | IPv4AddressVarbind (getOid: ObjectIdentifier) (ipVal: "byte list")
  | NoSuchObjectVarbind (getOid: ObjectIdentifier)

fun setOid :: "Varbind \<Rightarrow> ObjectIdentifier \<Rightarrow> Varbind" where
  "setOid (IntegerVarbind _ v) oid = IntegerVarbind oid v"
| "setOid (BitStringVarbind _ v) oid = BitStringVarbind oid v"
| "setOid (OctetStringVarbind _ v) oid = OctetStringVarbind oid v"
| "setOid (NullVarbind _) oid = NullVarbind oid"
| "setOid (ObjectIdentifierVarbind _ v) oid = ObjectIdentifierVarbind oid v"
| "setOid (IPv4AddressVarbind _ v) oid = IPv4AddressVarbind oid v"
| "setOid (NoSuchObjectVarbind _) oid = NoSuchObjectVarbind oid"

text \<open>Go's \<^verbatim>\<open>new(T)\<close>: every field at the zero value of its type.\<close>

definition new_IntegerVarbind :: Varbind where
  "new_IntegerVarbind = IntegerVarbind [] 0"

definition new_BitStringVarbind :: Varbind where
  "new_BitStringVarbind = BitStringVarbind [] None"

definition new_OctetStringVarbind :: Varbind where
  "new_OctetStringVarbind = OctetStringVarbind [] []"

definition new_NullVarbind :: Varbind where
  "new_NullVarbind = NullVarbind []"

definition new_ObjectIdentifierVarbind :: Varbind where
  "new_ObjectIdentifierVarbind = ObjectIdentifierVarbind [] []"

definition new_IPv4AddressVarbind :: Varbind where
  "new_IPv4AddressVarbind = IPv4AddressVarbind [] []"

text \<open>
  The constructors. Each allocates the struct and assigns \<^verbatim>\<open>vb.oid = oid\<close>; none of
  them assigns \<^verbatim>\<open>vb.val\<close>, so the parameter \<open>val\<close> is unused, as in the source.
\<close>

definition NewIntegerVarbind :: "ObjectIdentifier \<Rightarrow> 32 word \<Rightarrow> Varbind" where
  "NewIntegerVarbind oid val = (let vb = new_IntegerVarbind in setOid vb oid)"

definition NewBitStringVarbind :: "ObjectIdentifier \<Rightarrow> BitString option \<Rightarrow> Varbind" where
  "NewBitStringVarbind oid val = (let vb = new_BitStringVarbind in setOid vb oid)"

definition NewOctetStringVarbind :: "ObjectIdentifier \<Rightarrow> byte list \<Rightarrow> Varbind" where
  "NewOctetStringVarbind oid val = (let vb = new_OctetStringVarbind in setOid vb oid)"

definition NewNullVarbind :: "ObjectIdentifier \<Rightarrow> Varbind" where
  "NewNullVarbind oid = (let vb = new_NullVarbind in setOid vb oid)"

definition NewObjectIdentifierVarbind :: "ObjectIdentifier \<Rightarrow> ObjectIdentifier \<Rightarrow> Varbind" where
  "NewObjectIdentifierVarbind oid val = (let vb = new_ObjectIdentifierVarbind in setOid vb oid)"

definition NewIPv4AddressVarbind :: "ObjectIdentifier \<Rightarrow> byte list \<Rightarrow> Varbind" where
  "NewIPv4AddressVarbind oid val = (let vb = new_IPv4AddressVarbind in setOid vb oid)"

text \<open>
  Modelled from the spec: \<^verbatim>\<open>NewNoSuchObjectVarbind\<close> is called by the agent and missing
  from the sources; the spec (section 4.6, scenario 3) has it carry the requested OID.
\<close>

definition NewNoSuchObjectVarbind :: "ObjectIdentifier \<Rightarrow> Varbind" where
  "NewNoSuchObjectVarbind oid = NoSuchObjectVarbind oid"

lemmas New_defs =
  NewIntegerVarbind_def NewBitStringVarbind_def NewOctetStringVarbind_def NewNullVarbind_def
  NewObjectIdentifierVarbind_def NewIPv4AddressVarbind_def NewNoSuchObjectVarbind_def
  new_IntegerVarbind_def new_BitStringVarbind_def new_OctetStringVarbind_def
  new_NullVarbind_def new_ObjectIdentifierVarbind_def new_IPv4AddressVarbind_def

text \<open>
  C2. Each of the five constructors that take a value argument returns a varbind whose
  OID is the argument \<open>oid\<close> and whose value is the zero value of its Go type (0, nil,
  the empty slice), whatever the argument \<open>val\<close> was.
\<close>

theorem constructors_discard_value:
  "getOid (NewIntegerVarbind oid i) = oid \<and> intVal (NewIntegerVarbind oid i) = 0
   \<and> getOid (NewBitStringVarbind oid b) = oid \<and> bitsVal (NewBitStringVarbind oid b) = None
   \<and> getOid (NewOctetStringVarbind oid s) = oid \<and> octetsVal (NewOctetStringVarbind oid s) = []
   \<and> getOid (NewObjectIdentifierVarbind oid x) = oid
   \<and> oidVal (NewObjectIdentifierVarbind oid x) = []
   \<and> getOid (NewIPv4AddressVarbind oid a) = oid \<and> ipVal (NewIPv4AddressVarbind oid a) = []"
  by (simp add: New_defs)

section \<open>BER codec\<close>

text \<open>
  varbind.go holds \<^verbatim>\<open>encodeVarbind\<close>, \<^verbatim>\<open>decodeVarbind\<close> and the varbinds'
  \<^verbatim>\<open>encodeValue\<close> methods. The \<^verbatim>\<open>berEncoder\<close> and \<^verbatim>\<open>berDecoder\<close> they call are
  not among the sources (the first variant of snmp.go imports them from the package
  \<^verbatim>\<open>asn\<close>), so the primitives are modelled from section 4.1 of the spec, each under a
  comment that says so. Errors and panics are values of \<open>berError\<close>.
\<close>

datatype berError =
    MalformedBER
  | IntegerLength nat
  | SubIdOverflow
  | UnterminatedSubId
  | InvalidObjectIdentifier
  | InvalidIPv4Address
  | NilPointerDereference
  | TypeAssertionPanic
  | NonZeroNullLength nat
  | UnableToDecodeVarbindHeader berError
  | InvalidVarbindHeaderType byte
  | FailedToDecodeObjectIdentifier berError
  | UnableToDecodeValueHeader berError
  | UnknownValueType byte
  | ConsumedTooManyBytes nat int

text \<open>
  Modelled from the spec: the tag constants, missing from the sources; the values are
  the tag table of section 4.1 and the exception marker of section 6.
\<close>

definition INTEGER :: byte where "INTEGER = 0x02"
definition BIT_STRING :: byte where "BIT_STRING = 0x03"
definition OCTET_STRING :: byte where "OCTET_STRING = 0x04"
definition NULL :: byte where "NULL = 0x05"
definition OBJECT_IDENTIFIER :: byte where "OBJECT_IDENTIFIER = 0x06"
definition SEQUENCE :: byte where "SEQUENCE = 0x30"
definition IP_ADDRESS :: byte where "IP_ADDRESS = 0x40"
definition NO_SUCH_OBJECT :: byte where "NO_SUCH_OBJECT = 0x80"

lemmas tag_defs = INTEGER_def BIT_STRING_def OCTET_STRING_def NULL_def OBJECT_IDENTIFIER_def
  SEQUENCE_def IP_ADDRESS_def NO_SUCH_OBJECT_def

text \<open>
  Modelled from the spec: the length octets, missing from the sources. Section 4.1:
  lengths below 128 take one byte; larger lengths use the long form, \<open>0x80 | n\<close>
  followed by \<open>n\<close> big-endian bytes. \<open>beBytes\<close> is the big-endian form without
  leading zeros and \<open>beNat\<close> reads it back. The decoder fails with \<open>MalformedBER\<close>
  on truncated data.
\<close>

function beBytes :: "nat \<Rightarrow> byte list" where
  "beBytes n = (if n = 0 then [] else beBytes (n div 256) @ [of_nat (n mod 256)])"
  by pat_completeness auto
termination
  by (relation "measure id") auto

declare beBytes.simps [simp del]

definition beNat :: "byte list \<Rightarrow> nat" where
  "beNat bs = foldl (\<lambda>acc b. acc * 256 + unat b) 0 bs"

definition encodeLength :: "nat \<Rightarrow> byte list" where
  "encodeLength n =
     (if n < 128 then [of_nat n]
      else (let bs = beBytes n in of_nat (128 + length bs) # bs))"

definition decodeLength :: "byte list \<Rightarrow> berError + (nat \<times> byte list)" where
  "decodeLength bs =
     (case bs of
        [] \<Rightarrow> Inl MalformedBER
      | b # rest \<Rightarrow>
          if unat b < 128 then Inr (unat b, rest)
          else (let k = unat b - 128 in
                if length rest < k then Inl MalformedBER
                else Inr (beNat (take k rest), drop k rest)))"

text \<open>
  Modelled from the spec: the content octets of an integer, missing from the sources.
  Section 4.1: two's complement, the minimum number of bytes that preserves the sign
  bit. \<open>beInt\<close> reads them back, sign-extending the first byte.
\<close>

function intBytes :: "int \<Rightarrow> byte list" where
  "intBytes v =
     (if - 128 \<le> v \<and> v < 128 then [of_int v]
      else intBytes (v div 256) @ [of_int (v mod 256)])"
  by pat_completeness auto
termination
  by (relation "measure (\<lambda>v. nat \<bar>v\<bar>)") auto

declare intBytes.simps [simp del]

definition beInt :: "byte list \<Rightarrow> int" where
  "beInt bs =
     foldl (\<lambda>acc b. acc * 256 + uint b)
       (case bs of [] \<Rightarrow> 0 | b # _ \<Rightarrow> if unat b < 128 then 0 else - 1) bs"

text \<open>
  Modelled from the spec: the content octets of an object identifier, missing from the
  sources. Section 4.1: the first two sub-identifiers \<open>(a, b)\<close> are combined as
  \<open>a * 40 + b\<close> with \<open>a\<close> in 0..2 (for \<open>a = 2\<close>, \<open>b\<close> may be large); every value is
  written base 128, all bytes but the last with the top bit set. Decoding reverses this,
  a combined value of 80 or more giving \<open>a = 2\<close>, and fails on sub-identifier overflow
  (here: beyond 32 bits) and on an unterminated continuation. \<open>b128hi\<close> writes the
  continuation bytes of a value, \<open>b128\<close> the whole value.
\<close>

function b128hi :: "nat \<Rightarrow> byte list" where
  "b128hi n = (if n = 0 then [] else b128hi (n div 128) @ [of_nat (128 + n mod 128)])"
  by pat_completeness auto
termination
  by (relation "measure id") auto

declare b128hi.simps [simp del]

definition b128 :: "nat \<Rightarrow> byte list" where
  "b128 n = b128hi (n div 128) @ [of_nat (n mod 128)]"

fun decodeSubIds :: "nat \<Rightarrow> bool \<Rightarrow> byte list \<Rightarrow> berError + nat list" where
  "decodeSubIds acc open [] = (if open then Inl UnterminatedSubId else Inr [])"
| "decodeSubIds acc open (b # bs) =
     (let acc' = acc * 128 + unat b mod 128 in
      if 2 ^ 32 \<le> acc' then Inl SubIdOverflow
      else if 128 \<le> unat b then decodeSubIds acc' True bs
      else (case decodeSubIds 0 False bs of
              Inl e \<Rightarrow> Inl e
            | Inr ids \<Rightarrow> Inr (acc' # ids)))"

definition oidContent :: "ObjectIdentifier \<Rightarrow> berError + byte list" where
  "oidContent oid =
     (case oid of
        a # b # rest \<Rightarrow>
          if 2 < a \<or> (a < 2 \<and> 40 \<le> b) then Inl InvalidObjectIdentifier
          else Inr (b128 (a * 40 + b) @ concat (map b128 rest))
      | _ \<Rightarrow> Inl InvalidObjectIdentifier)"

definition decodeObjectIdentifier :: "byte list \<Rightarrow> berError + ObjectIdentifier" where
  "decodeObjectIdentifier content =
     (case decodeSubIds 0 False content of
        Inl e \<Rightarrow> Inl e
      | Inr [] \<Rightarrow> Inl MalformedBER
      | Inr (x # ids) \<Rightarrow>
          Inr ((if x < 40 then [0, x] else if x < 80 then [1, x - 40] else [2, x - 80]) @ ids))"

text \<open>
  Modelled from the spec: the encoder is a write-only buffer that emits TLV sequences,
  the decoder a cursor over a byte slice whose \<^verbatim>\<open>Len()\<close> is the number of bytes left
  (section 4.1). Each \<^verbatim>\<open>encode...\<close> method appends one TLV and returns the number of
  bytes written. The sources do not say what \<^verbatim>\<open>encodeBitString\<close> does with a nil
  pointer; a Go method reading through it panics. An IPv4 address is four bytes.
\<close>

type_synonym berEncoder = "byte list"
type_synonym berDecoder = "byte list"

definition newBerEncoder :: berEncoder where
  "newBerEncoder = []"

definition emitTLV :: "byte \<Rightarrow> byte list \<Rightarrow> berEncoder \<Rightarrow> nat \<times> berEncoder" where
  "emitTLV tag content encoder =
     (let tlv = tag # encodeLength (length content) @ content
      in (length tlv, encoder @ tlv))"

definition encodeInteger :: "berEncoder \<Rightarrow> int \<Rightarrow> nat \<times> berEncoder" where
  "encodeInteger encoder v = emitTLV INTEGER (intBytes v) encoder"

definition encodeBitString :: "berEncoder \<Rightarrow> BitString option \<Rightarrow> berError + nat \<times> berEncoder" where
  "encodeBitString encoder bs =
     (case bs of
        None \<Rightarrow> Inl NilPointerDereference
      | Some content \<Rightarrow> Inr (emitTLV BIT_STRING content encoder))"

definition encodeOctetString :: "berEncoder \<Rightarrow> byte list \<Rightarrow> nat \<times> berEncoder" where
  "encodeOctetString encoder bs = emitTLV OCTET_STRING bs encoder"

definition encodeNull :: "berEncoder \<Rightarrow> nat \<times> berEncoder" where
  "encodeNull encoder = emitTLV NULL [] encoder"

definition encodeObjectIdentifier ::
  "berEncoder \<Rightarrow> ObjectIdentifier \<Rightarrow> berError + nat \<times> berEncoder" where
  "encodeObjectIdentifier encoder oid =
     (case oidContent oid of
        Inl e \<Rightarrow> Inl e
      | Inr content \<Rightarrow> Inr (emitTLV OBJECT_IDENTIFIER content encoder))"

definition encodeIPv4Address :: "berEncoder \<Rightarrow> byte list \<Rightarrow> berError + nat \<times> berEncoder" where
  "encodeIPv4Address encoder ip =
     (if length ip = 4 then Inr (emitTLV IP_ADDRESS ip encoder) else Inl InvalidIPv4Address)"

definition encodeNoSuchObject :: "berEncoder \<Rightarrow> nat \<times> berEncoder" where
  "encodeNoSuchObject encoder = emitTLV NO_SUCH_OBJECT [] encoder"

text \<open>
  Modelled from the spec: \<^verbatim>\<open>newHeader\<close> opens a constructed element at the current
  end of the buffer and \<^verbatim>\<open>setContentLength\<close> patches its length in once the content
  is written (section 4.1); it returns the header's length and the marshalled length.
\<close>

record berHeader =
  headerType :: byte
  headerPos :: nat

definition newHeader :: "berEncoder \<Rightarrow> byte \<Rightarrow> berHeader" where
  "newHeader encoder tag = \<lparr>headerType = tag, headerPos = length encoder\<rparr>"

definition setContentLength :: "berHeader \<Rightarrow> nat \<Rightarrow> berEncoder \<Rightarrow> (nat \<times> nat) \<times> berEncoder" where
  "setContentLength header contentLength encoder =
     (let hdr = headerType header # encodeLength contentLength
      in ((length hdr, length hdr + contentLength),
          take (headerPos header) encoder @ hdr @ drop (headerPos header) encoder))"

text \<open>
  The \<^verbatim>\<open>encodeValue\<close> methods of varbind.go. \<^verbatim>\<open>IntegerVarbind\<close> widens its
  \<^verbatim>\<open>int32\<close> to \<^verbatim>\<open>int64\<close>, which keeps the value \<open>sint val\<close>. The last equation is
  modelled from the spec (section 6: an implicit NULL under tag 0x80).
\<close>

fun encodeValue :: "Varbind \<Rightarrow> berEncoder \<Rightarrow> berError + nat \<times> berEncoder" where
  "encodeValue (IntegerVarbind _ val) encoder = Inr (encodeInteger encoder (sint val))"
| "encodeValue (BitStringVarbind _ val) encoder = encodeBitString encoder val"
| "encodeValue (OctetStringVarbind _ val) encoder = Inr (encodeOctetString encoder val)"
| "encodeValue (NullVarbind _) encoder = Inr (encodeNull encoder)"
| "encodeValue (ObjectIdentifierVarbind _ val) encoder = encodeObjectIdentifier encoder val"
| "encodeValue (IPv4AddressVarbind _ val) encoder = encodeIPv4Address encoder val"
| "encodeValue (NoSuchObjectVarbind _) encoder = Inr (encodeNoSuchObject encoder)"

text \<open>\<^verbatim>\<open>encodeVarbind\<close> (varbind.go, lines 16 to 28).\<close>

definition encodeVarbind :: "berEncoder \<Rightarrow> Varbind \<Rightarrow> berError + nat \<times> berEncoder" where
  "encodeVarbind encoder vb =
     (let header = newHeader encoder SEQUENCE in
      case encodeObjectIdentifier encoder (getOid vb) of
        Inl err \<Rightarrow> Inl err
      | Inr (oidLen, encoder1) \<Rightarrow>
         (case encodeValue vb encoder1 of
            Inl err \<Rightarrow> Inl err
          | Inr (valLen, encoder2) \<Rightarrow>
              (let ((_, marshalledLen), encoder3) = setContentLength header (oidLen + valLen) encoder2
               in Inr (marshalledLen, encoder3))))"

text \<open>
  Modelled from the spec: the decoder's methods, missing from the sources.
  \<^verbatim>\<open>decodeValue\<close> returns the value as an \<^verbatim>\<open>interface{}\<close>, here \<open>berValue\<close>, whose
  dynamic type \<^verbatim>\<open>decodeVarbind\<close> asserts. The header decoder fails with
  \<open>MalformedBER\<close> when the length runs past the data; the integer decoder fails on
  length 0 and on length above 8 (section 4.1). A tag outside the six that
  \<^verbatim>\<open>decodeVarbind\<close> switches on is handed back with its raw content.
\<close>

datatype berValue =
    IntV "32 word"
  | BitStringV "BitString option"
  | OctetsV "byte list"
  | NullV
  | OidV ObjectIdentifier
  | IpV "byte list"
  | RawV "byte list"

definition decodeHeader :: "berDecoder \<Rightarrow> berError + (byte \<times> nat \<times> berDecoder)" where
  "decodeHeader decoder =
     (case decoder of
        [] \<Rightarrow> Inl MalformedBER
      | tag # rest \<Rightarrow>
         (case decodeLength rest of
            Inl e \<Rightarrow> Inl e
          | Inr (n, rest') \<Rightarrow>
              if length rest' < n then Inl MalformedBER else Inr (tag, n, rest')))"

definition decodeInteger :: "byte list \<Rightarrow> berError + int" where
  "decodeInteger content =
     (if length content = 0 \<or> 8 < length content then Inl (IntegerLength (length content))
      else Inr (beInt content))"

definition decodeInt32 :: "byte list \<Rightarrow> berError + 32 word" where
  "decodeInt32 content =
     (case decodeInteger content of Inl e \<Rightarrow> Inl e | Inr v \<Rightarrow> Inr (of_int v))"

definition decodeObjectIdentifierWithHeader ::
  "berDecoder \<Rightarrow> berError + (ObjectIdentifier \<times> berDecoder)" where
  "decodeObjectIdentifierWithHeader decoder =
     (case decodeHeader decoder of
        Inl e \<Rightarrow> Inl e
      | Inr (tag, n, rest) \<Rightarrow>
          if tag \<noteq> OBJECT_IDENTIFIER then Inl MalformedBER
          else (case decodeObjectIdentifier (take n rest) of
                  Inl e \<Rightarrow> Inl e
                | Inr oid \<Rightarrow> Inr (oid, drop n rest)))"

definition decodeValue :: "berDecoder \<Rightarrow> berError + (byte \<times> berValue \<times> berDecoder)" where
  "decodeValue decoder =
     (case decodeHeader decoder of
        Inl e \<Rightarrow> Inl e
      | Inr (tag, n, rest) \<Rightarrow>
         (let content = take n rest; decoder' = drop n rest in
          if tag = INTEGER then
            (case decodeInt32 content of
               Inl e \<Rightarrow> Inl e
             | Inr v \<Rightarrow> Inr (tag, IntV v, decoder'))
          else if tag = BIT_STRING then Inr (tag, BitStringV (Some content), decoder')
          else if tag = OCTET_STRING then Inr (tag, OctetsV content, decoder')
          else if tag = NULL then
            (if n \<noteq> 0 then Inl (NonZeroNullLength n) else Inr (tag, NullV, decoder'))
          else if tag = OBJECT_IDENTIFIER then
            (case decodeObjectIdentifier content of
               Inl e \<Rightarrow> Inl e
             | Inr oid \<Rightarrow> Inr (tag, OidV oid, decoder'))
          else if tag = IP_ADDRESS then
            (if n \<noteq> 4 then Inl InvalidIPv4Address else Inr (tag, IpV content, decoder'))
          else Inr (tag, RawV content, decoder')))"

text \<open>
  The \<^verbatim>\<open>switch valueType\<close> of \<^verbatim>\<open>decodeVarbind\<close>. A failed type assertion panics.
  The cases for Counter32, Gauge32, TimeTicks, Opaque, Counter64 and Uint32 are commented
  out in the source, so these tags reach \<^verbatim>\<open>default\<close>.
\<close>

definition newVarbindForType ::
  "byte \<Rightarrow> berValue \<Rightarrow> ObjectIdentifier \<Rightarrow> berError + Varbind" where
  "newVarbindForType valueType val oid =
     (if valueType = INTEGER then
        (case val of IntV v \<Rightarrow> Inr (NewIntegerVarbind oid v) | _ \<Rightarrow> Inl TypeAssertionPanic)
      else if valueType = BIT_STRING then
        (case val of BitStringV v \<Rightarrow> Inr (NewBitStringVarbind oid v) | _ \<Rightarrow> Inl TypeAssertionPanic)
      else if valueType = OCTET_STRING then
        (case val of OctetsV v \<Rightarrow> Inr (NewOctetStringVarbind oid v) | _ \<Rightarrow> Inl TypeAssertionPanic)
      else if valueType = NULL then Inr (NewNullVarbind oid)
      else if valueType = OBJECT_IDENTIFIER then
        (case val of OidV v \<Rightarrow> Inr (NewObjectIdentifierVarbind oid v) | _ \<Rightarrow> Inl TypeAssertionPanic)
      else if valueType = IP_ADDRESS then
        (case val of IpV v \<Rightarrow> Inr (NewIPv4AddressVarbind oid v) | _ \<Rightarrow> Inl TypeAssertionPanic)
      else Inl (UnknownValueType valueType))"

text \<open>\<^verbatim>\<open>decodeVarbind\<close> (varbind.go, lines 246 to 295).\<close>

definition decodeVarbind :: "berDecoder \<Rightarrow> berError + (Varbind \<times> berDecoder)" where
  "decodeVarbind decoder =
     (case decodeHeader decoder of
        Inl err \<Rightarrow> Inl (UnableToDecodeVarbindHeader err)
      | Inr (varbindHeaderType, varbindLength, decoder1) \<Rightarrow>
         (let startDecoderLen = length decoder1 in
          if varbindHeaderType \<noteq> SEQUENCE then Inl (InvalidVarbindHeaderType varbindHeaderType)
          else
           (case decodeObjectIdentifierWithHeader decoder1 of
              Inl err \<Rightarrow> Inl (FailedToDecodeObjectIdentifier err)
            | Inr (oid, decoder2) \<Rightarrow>
               (case decodeValue decoder2 of
                  Inl err \<Rightarrow> Inl (UnableToDecodeValueHeader err)
                | Inr (valueType, val, decoder3) \<Rightarrow>
                   (case newVarbindForType valueType val oid of
                      Inl err \<Rightarrow> Inl err
                    | Inr varbind \<Rightarrow>
                        if int startDecoderLen - int (length decoder3) \<noteq> int varbindLength
                        then Inl (ConsumedTooManyBytes varbindLength
                                    (int startDecoderLen - int (length decoder3)))
                        else Inr (varbind, decoder3))))))"

subsection \<open>Round trip of the primitives\<close>

lemma unat_byte_of_nat: "n < 256 \<Longrightarrow> unat (of_nat n :: byte) = n"
  by (simp add: unat_of_nat)

lemma beNat_snoc: "beNat (bs @ [b]) = beNat bs * 256 + unat b"
  by (simp add: beNat_def)

lemma beNat_beBytes: "beNat (beBytes n) = n"
proof (induction n rule: beBytes.induct)
  case (1 n)
  show ?case
  proof (cases "n = 0")
    case True
    then show ?thesis by (simp add: beBytes.simps beNat_def)
  next
    case False
    have "beBytes n = beBytes (n div 256) @ [of_nat (n mod 256)]"
      using False by (subst beBytes.simps) simp
    then show ?thesis
      using 1 False by (simp add: beNat_snoc unat_byte_of_nat)
  qed
qed

lemma beBytes_length: "n < 256 ^ k \<Longrightarrow> length (beBytes n) \<le> k"
proof (induction k arbitrary: n)
  case 0
  then show ?case by (simp add: beBytes.simps)
next
  case (Suc k)
  show ?case
  proof (cases "n = 0")
    case True
    then show ?thesis by (simp add: beBytes.simps)
  next
    case False
    have "n div 256 < 256 ^ k"
      using Suc.prems by (simp add: less_mult_imp_div_less)
    then have "length (beBytes (n div 256)) \<le> k"
      by (rule Suc.IH)
    moreover have "beBytes n = beBytes (n div 256) @ [of_nat (n mod 256)]"
      using False by (subst beBytes.simps) simp
    ultimately show ?thesis by simp
  qed
qed

lemma decodeLength_encodeLength:
  assumes "n < 256 ^ 127"
  shows "decodeLength (encodeLength n @ rest) = Inr (n, rest)"
proof (cases "n < 128")
  case True
  then show ?thesis
    by (simp add: encodeLength_def decodeLength_def unat_byte_of_nat)
next
  case False
  define bs where "bs = beBytes n"
  define c :: byte where "c = of_nat (128 + length bs)"
  have len: "length bs \<le> 127"
    unfolding bs_def using assms by (rule beBytes_length)
  have u: "unat c = 128 + length bs"
    unfolding c_def by (intro unat_byte_of_nat) (use len in simp)
  have "decodeLength ((c # bs) @ rest) = Inr (beNat bs, rest)"
    by (simp add: decodeLength_def u)
  moreover have "encodeLength n = c # bs"
    using False by (simp add: encodeLength_def Let_def bs_def c_def)
  moreover have "beNat bs = n"
    by (simp add: bs_def beNat_beBytes)
  ultimately show ?thesis by simp
qed

lemma decodeHeader_TLV:
  assumes "length content < 256 ^ 127"
  shows "decodeHeader (tag # encodeLength (length content) @ content @ rest)
         = Inr (tag, length content, content @ rest)"
  by (simp add: decodeHeader_def decodeLength_encodeLength [OF assms])

lemma b128hi_step: "m \<noteq> 0 \<Longrightarrow> b128hi m = b128hi (m div 128) @ [of_nat (128 + m mod 128)]"
  by (subst b128hi.simps) simp

lemma decodeSubIds_cont:
  "unat b = 128 + r \<Longrightarrow> r < 128 \<Longrightarrow> acc * 128 + r < 2 ^ 32 \<Longrightarrow>
   decodeSubIds acc opn (b # bs) = decodeSubIds (acc * 128 + r) True bs"
  by (simp add: Let_def)

lemma decodeSubIds_last:
  "unat b = r \<Longrightarrow> r < 128 \<Longrightarrow> acc * 128 + r < 2 ^ 32 \<Longrightarrow>
   decodeSubIds acc opn (b # bs)
     = (case decodeSubIds 0 False bs of Inl e \<Rightarrow> Inl e | Inr ids \<Rightarrow> Inr ((acc * 128 + r) # ids))"
  by (simp add: Let_def)

lemma decodeSubIds_b128hi:
  "acc * 128 ^ length (b128hi m) + m < 2 ^ 32 \<Longrightarrow>
   decodeSubIds acc opn (b128hi m @ bs)
     = decodeSubIds (acc * 128 ^ length (b128hi m) + m) (opn \<or> m \<noteq> 0) bs"
proof (induction m arbitrary: acc opn bs rule: b128hi.induct)
  case (1 m)
  show ?case
  proof (cases "m = 0")
    case True
    then show ?thesis by (simp add: b128hi.simps)
  next
    case False
    let ?k = "length (b128hi (m div 128))"
    define c :: byte where "c = of_nat (128 + m mod 128)"
    have step: "b128hi m = b128hi (m div 128) @ [c]"
      unfolding c_def using False by (rule b128hi_step)
    have uc: "unat c = 128 + m mod 128"
      unfolding c_def by (intro unat_byte_of_nat) simp
    have eq: "(acc * 128 ^ ?k + m div 128) * 128 + m mod 128 = acc * 128 ^ length (b128hi m) + m"
      by (simp add: step algebra_simps)
    have bound: "(acc * 128 ^ ?k + m div 128) * 128 + m mod 128 < 2 ^ 32"
      unfolding eq using "1.prems" .
    have "acc * 128 ^ ?k + m div 128 \<le> (acc * 128 ^ ?k + m div 128) * 128 + m mod 128"
      by simp
    then have pre: "acc * 128 ^ ?k + m div 128 < 2 ^ 32"
      using bound by (rule le_less_trans)
    have "decodeSubIds acc opn (b128hi m @ bs)
          = decodeSubIds acc opn (b128hi (m div 128) @ (c # bs))"
      by (simp add: step)
    also have "\<dots> = decodeSubIds (acc * 128 ^ ?k + m div 128) (opn \<or> m div 128 \<noteq> 0) (c # bs)"
      using "1.IH" [OF False pre] .
    also have "\<dots> = decodeSubIds ((acc * 128 ^ ?k + m div 128) * 128 + m mod 128) True bs"
      using uc _ bound by (rule decodeSubIds_cont) simp
    finally show ?thesis
      using False by (simp only: eq simp_thms)
  qed
qed

lemma decodeSubIds_b128:
  assumes "n < 2 ^ 32"
  shows "decodeSubIds 0 False (b128 n @ bs)
         = (case decodeSubIds 0 False bs of Inl e \<Rightarrow> Inl e | Inr ids \<Rightarrow> Inr (n # ids))"
proof -
  define c :: byte where "c = of_nat (n mod 128)"
  have uc: "unat c = n mod 128"
    unfolding c_def by (intro unat_byte_of_nat) simp
  have pre: "0 * 128 ^ length (b128hi (n div 128)) + n div 128 < 2 ^ 32"
    using assms by simp
  have n: "n div 128 * 128 + n mod 128 = n"
    by simp
  have "decodeSubIds 0 False (b128 n @ bs) = decodeSubIds 0 False (b128hi (n div 128) @ (c # bs))"
    by (simp add: b128_def c_def)
  also have "\<dots> = decodeSubIds (n div 128) (n div 128 \<noteq> 0) (c # bs)"
    using decodeSubIds_b128hi [OF pre] by simp
  also have "\<dots> = (case decodeSubIds 0 False bs of Inl e \<Rightarrow> Inl e
                    | Inr ids \<Rightarrow> Inr ((n div 128 * 128 + n mod 128) # ids))"
  proof (rule decodeSubIds_last [OF uc])
    show "n mod 128 < 128" by simp
    show "n div 128 * 128 + n mod 128 < 2 ^ 32" unfolding n using assms .
  qed
  finally show ?thesis
    by (simp only: n)
qed

lemma decodeSubIds_concat:
  "list_all (\<lambda>x. x < 2 ^ 32) xs \<Longrightarrow> decodeSubIds 0 False (concat (map b128 xs)) = Inr xs"
  by (induction xs) (simp_all add: decodeSubIds_b128)


text \<open>
  The valid domain of an object identifier: at least two sub-identifiers, the first in
  0..2, the second below 40 unless the first is 2, and every encoded value in 32 bits.
\<close>

fun valid_oid :: "ObjectIdentifier \<Rightarrow> bool" where
  "valid_oid (a # b # rest) =
     (a \<le> 2 \<and> (a = 2 \<or> b < 40) \<and> a * 40 + b < 2 ^ 32 \<and> list_all (\<lambda>x. x < 2 ^ 32) rest)"
| "valid_oid _ = False"

lemma oidContent_valid:
  assumes "valid_oid oid"
  shows "\<exists>content. oidContent oid = Inr content \<and> decodeObjectIdentifier content = Inr oid"
proof -
  obtain a b rest where oid: "oid = a # b # rest"
    using assms by (cases oid rule: valid_oid.cases) simp_all
  have v: "a \<le> 2" "a = 2 \<or> b < 40" "a * 40 + b < 2 ^ 32" "list_all (\<lambda>x. x < 2 ^ 32) rest"
    using assms by (simp_all add: oid)
  let ?c = "b128 (a * 40 + b) @ concat (map b128 rest)"
  have enc: "oidContent oid = Inr ?c"
    using v by (auto simp: oidContent_def oid)
  have "decodeSubIds 0 False ?c = Inr ((a * 40 + b) # rest)"
    by (simp add: decodeSubIds_b128 [OF v(3)] decodeSubIds_concat [OF v(4)])
  moreover have "(if a * 40 + b < 40 then [0, a * 40 + b]
                  else if a * 40 + b < 80 then [1, a * 40 + b - 40]
                  else [2, a * 40 + b - 80]) = [a, b]"
  proof -
    consider "a = 0" | "a = 1" | "a = 2"
      using v(1) by linarith
    then show ?thesis
      using v(2) by cases simp_all
  qed
  ultimately have "decodeObjectIdentifier ?c = Inr oid"
    by (simp add: decodeObjectIdentifier_def oid)
  with enc show ?thesis by blast
qed


lemma intBytes_nonempty: "intBytes v \<noteq> []"
  by (subst intBytes.simps) simp

lemma intBytes_length:
  "- (2 ^ (8 * k + 7)) \<le> v \<Longrightarrow> v < 2 ^ (8 * k + 7) \<Longrightarrow> length (intBytes v) \<le> Suc k"
proof (induction k arbitrary: v)
  case 0
  then show ?case by (subst intBytes.simps) simp
next
  case (Suc k)
  show ?case
  proof (cases "- 128 \<le> v \<and> v < 128")
    case True
    then show ?thesis by (subst intBytes.simps) simp
  next
    case False
    define t :: int where "t = 2 ^ (8 * k + 7)"
    have p: "(2::int) ^ (8 * Suc k + 7) = 256 * t"
      by (simp add: t_def power_add)
    have "- t \<le> v div 256" "v div 256 < t"
      using Suc.prems unfolding p by linarith+
    then have "length (intBytes (v div 256)) \<le> Suc k"
      unfolding t_def by (rule Suc.IH)
    moreover have "intBytes v = intBytes (v div 256) @ [of_int (v mod 256)]"
      by (subst intBytes.simps) (simp only: False if_False)
    ultimately show ?thesis by simp
  qed
qed

lemma intBytes_int32: "length (intBytes (sint (w :: 32 word))) \<le> 4"
proof -
  have "- (2 ^ (8 * 3 + 7)) \<le> sint w" "sint w < 2 ^ (8 * 3 + 7)"
    using sint_ge [of w] sint_lt [of w] by simp_all
  then have "length (intBytes (sint w)) \<le> Suc 3"
    by (rule intBytes_length)
  then show ?thesis by simp
qed


subsection \<open>Round trip of a varbind\<close>

text \<open>
  The type tag of a varbind (the \<^verbatim>\<open>// type 0x..\<close> comments of varbind.go) and the
  valid domain of each variant's value: a bit string is not nil, an object identifier is
  valid, an IPv4 address has four bytes.
\<close>

fun typeTag :: "Varbind \<Rightarrow> byte" where
  "typeTag (IntegerVarbind _ _) = INTEGER"
| "typeTag (BitStringVarbind _ _) = BIT_STRING"
| "typeTag (OctetStringVarbind _ _) = OCTET_STRING"
| "typeTag (NullVarbind _) = NULL"
| "typeTag (ObjectIdentifierVarbind _ _) = OBJECT_IDENTIFIER"
| "typeTag (IPv4AddressVarbind _ _) = IP_ADDRESS"
| "typeTag (NoSuchObjectVarbind _) = NO_SUCH_OBJECT"

fun valid_value :: "Varbind \<Rightarrow> bool" where
  "valid_value (IntegerVarbind _ _) = True"
| "valid_value (BitStringVarbind _ val) = (val \<noteq> None)"
| "valid_value (OctetStringVarbind _ _) = True"
| "valid_value (NullVarbind _) = True"
| "valid_value (ObjectIdentifierVarbind _ val) = valid_oid val"
| "valid_value (IPv4AddressVarbind _ val) = (length val = 4)"
| "valid_value (NoSuchObjectVarbind _) = True"

text \<open>One tag-length-value triple, as \<open>emitTLV\<close> appends it.\<close>

definition tlv :: "byte \<Rightarrow> byte list \<Rightarrow> byte list" where
  "tlv tag content = tag # encodeLength (length content) @ content"

lemma emitTLV_tlv: "emitTLV tag content encoder = (length (tlv tag content), encoder @ tlv tag content)"
  by (simp add: emitTLV_def tlv_def Let_def)

lemma length_tlv: "length content \<le> length (tlv tag content)"
  by (simp add: tlv_def)

lemma decodeHeader_tlv:
  "length content < 256 ^ 127 \<Longrightarrow>
   decodeHeader (tlv tag content @ rest) = Inr (tag, length content, content @ rest)"
  using decodeHeader_TLV [of content tag rest] by (simp add: tlv_def)

lemma encodeObjectIdentifier_valid:
  assumes "valid_oid oid"
  shows "\<exists>content. encodeObjectIdentifier encoder oid
             = Inr (length (tlv OBJECT_IDENTIFIER content), encoder @ tlv OBJECT_IDENTIFIER content)
           \<and> decodeObjectIdentifier content = Inr oid"
proof -
  obtain content where "oidContent oid = Inr content" "decodeObjectIdentifier content = Inr oid"
    using oidContent_valid [OF assms] by blast
  then show ?thesis
    by (auto simp: encodeObjectIdentifier_def emitTLV_tlv)
qed

lemma decodeObjectIdentifierWithHeader_tlv:
  assumes "decodeObjectIdentifier content = Inr oid" and "length content < 256 ^ 127"
  shows "decodeObjectIdentifierWithHeader (tlv OBJECT_IDENTIFIER content @ rest) = Inr (oid, rest)"
  by (simp add: decodeObjectIdentifierWithHeader_def decodeHeader_tlv [OF assms(2)] assms(1))

lemma encodeValue_valid:
  assumes "valid_value vb"
  shows "\<exists>content. encodeValue vb encoder
             = Inr (length (tlv (typeTag vb) content), encoder @ tlv (typeTag vb) content)
           \<and> (length content < 256 ^ 127 \<longrightarrow> typeTag vb \<noteq> NO_SUCH_OBJECT \<longrightarrow>
                (\<exists>v vb'. decodeValue (tlv (typeTag vb) content @ rest) = Inr (typeTag vb, v, rest)
                   \<and> newVarbindForType (typeTag vb) v oid = Inr vb'
                   \<and> getOid vb' = oid \<and> typeTag vb' = typeTag vb))"
proof (cases vb)
  case (IntegerVarbind o1 val)
  let ?c = "intBytes (sint val)"
  have len: "length ?c \<noteq> 0" "\<not> 8 < length ?c"
    using intBytes_nonempty [of "sint val"] intBytes_int32 [of val] by simp_all
  have "encodeValue vb encoder = Inr (length (tlv INTEGER ?c), encoder @ tlv INTEGER ?c)"
    by (simp add: IntegerVarbind encodeInteger_def emitTLV_tlv)
  moreover have "length ?c < 256 ^ 127 \<Longrightarrow>
      decodeValue (tlv INTEGER ?c @ rest) = Inr (INTEGER, IntV (of_int (beInt ?c)), rest)"
    using len by (simp add: decodeValue_def decodeHeader_tlv decodeInt32_def decodeInteger_def)
  moreover have "newVarbindForType INTEGER (IntV (of_int (beInt ?c))) oid = Inr (NewIntegerVarbind oid (of_int (beInt ?c)))"
    by (simp add: newVarbindForType_def)
  ultimately show ?thesis
    by (auto simp: IntegerVarbind New_defs)
next
  case (BitStringVarbind o1 val)
  then obtain c where c: "val = Some c"
    using assms by auto
  have "encodeValue vb encoder = Inr (length (tlv BIT_STRING c), encoder @ tlv BIT_STRING c)"
    by (simp add: BitStringVarbind c encodeBitString_def emitTLV_tlv)
  moreover have "length c < 256 ^ 127 \<Longrightarrow>
      decodeValue (tlv BIT_STRING c @ rest) = Inr (BIT_STRING, BitStringV (Some c), rest)"
    by (simp add: decodeValue_def decodeHeader_tlv tag_defs)
  moreover have "newVarbindForType BIT_STRING (BitStringV (Some c)) oid = Inr (NewBitStringVarbind oid (Some c))"
    by (simp add: newVarbindForType_def tag_defs)
  ultimately show ?thesis
    by (auto simp: BitStringVarbind New_defs)
next
  case (OctetStringVarbind o1 c)
  have "encodeValue vb encoder = Inr (length (tlv OCTET_STRING c), encoder @ tlv OCTET_STRING c)"
    by (simp add: OctetStringVarbind encodeOctetString_def emitTLV_tlv)
  moreover have "length c < 256 ^ 127 \<Longrightarrow>
      decodeValue (tlv OCTET_STRING c @ rest) = Inr (OCTET_STRING, OctetsV c, rest)"
    by (simp add: decodeValue_def decodeHeader_tlv tag_defs)
  moreover have "newVarbindForType OCTET_STRING (OctetsV c) oid = Inr (NewOctetStringVarbind oid c)"
    by (simp add: newVarbindForType_def tag_defs)
  ultimately show ?thesis
    by (auto simp: OctetStringVarbind New_defs)
next
  case (NullVarbind o1)
  have "encodeValue vb encoder = Inr (length (tlv NULL []), encoder @ tlv NULL [])"
    by (simp add: NullVarbind encodeNull_def emitTLV_tlv)
  moreover have "decodeValue (tlv NULL [] @ rest) = Inr (NULL, NullV, rest)"
    using decodeHeader_tlv [of "[]" NULL rest] by (simp add: decodeValue_def tag_defs)
  moreover have "newVarbindForType NULL NullV oid = Inr (NewNullVarbind oid)"
    by (simp add: newVarbindForType_def tag_defs)
  ultimately show ?thesis
    by (auto simp: NullVarbind New_defs)
next
  case (ObjectIdentifierVarbind o1 val)
  then have "valid_oid val"
    using assms by simp
  then obtain c where c: "encodeObjectIdentifier encoder val
        = Inr (length (tlv OBJECT_IDENTIFIER c), encoder @ tlv OBJECT_IDENTIFIER c)"
      "decodeObjectIdentifier c = Inr val"
    using encodeObjectIdentifier_valid by blast
  have "encodeValue vb encoder = Inr (length (tlv OBJECT_IDENTIFIER c), encoder @ tlv OBJECT_IDENTIFIER c)"
    by (simp add: ObjectIdentifierVarbind c(1))
  moreover have "length c < 256 ^ 127 \<Longrightarrow>
      decodeValue (tlv OBJECT_IDENTIFIER c @ rest) = Inr (OBJECT_IDENTIFIER, OidV val, rest)"
    by (simp add: decodeValue_def decodeHeader_tlv c(2) tag_defs)
  moreover have "newVarbindForType OBJECT_IDENTIFIER (OidV val) oid = Inr (NewObjectIdentifierVarbind oid val)"
    by (simp add: newVarbindForType_def tag_defs)
  ultimately show ?thesis
    by (auto simp: ObjectIdentifierVarbind New_defs)
next
  case (IPv4AddressVarbind o1 c)
  then have len: "length c = 4"
    using assms by simp
  have "encodeValue vb encoder = Inr (length (tlv IP_ADDRESS c), encoder @ tlv IP_ADDRESS c)"
    by (simp add: IPv4AddressVarbind encodeIPv4Address_def emitTLV_tlv len)
  moreover have "decodeValue (tlv IP_ADDRESS c @ rest) = Inr (IP_ADDRESS, IpV c, rest)"
    using decodeHeader_tlv [of c IP_ADDRESS rest] by (simp add: decodeValue_def len tag_defs)
  moreover have "newVarbindForType IP_ADDRESS (IpV c) oid = Inr (NewIPv4AddressVarbind oid c)"
    by (simp add: newVarbindForType_def tag_defs)
  ultimately show ?thesis
    by (auto simp: IPv4AddressVarbind New_defs)
next
  case (NoSuchObjectVarbind o1)
  then show ?thesis
    by (auto simp: encodeNoSuchObject_def emitTLV_tlv)
qed


text \<open>A varbind is in the valid domain when its OID and its value are.\<close>

definition valid_varbind :: "Varbind \<Rightarrow> bool" where
  "valid_varbind vb = (valid_oid (getOid vb) \<and> valid_value vb)"

lemma encodeVarbind_valid:
  assumes "valid_varbind vb"
  shows "\<exists>oc vc. encodeVarbind newBerEncoder vb
           = Inr (length (tlv SEQUENCE (tlv OBJECT_IDENTIFIER oc @ tlv (typeTag vb) vc)),
                  tlv SEQUENCE (tlv OBJECT_IDENTIFIER oc @ tlv (typeTag vb) vc))
         \<and> decodeObjectIdentifier oc = Inr (getOid vb)
         \<and> (length vc < 256 ^ 127 \<longrightarrow> typeTag vb \<noteq> NO_SUCH_OBJECT \<longrightarrow>
              (\<exists>v vb'. decodeValue (tlv (typeTag vb) vc @ rest) = Inr (typeTag vb, v, rest)
                   \<and> newVarbindForType (typeTag vb) v (getOid vb) = Inr vb'
                   \<and> getOid vb' = getOid vb \<and> typeTag vb' = typeTag vb))"
proof -
  let ?t = "typeTag vb"
  obtain oc where oc: "encodeObjectIdentifier [] (getOid vb)
        = Inr (length (tlv OBJECT_IDENTIFIER oc), tlv OBJECT_IDENTIFIER oc)"
      "decodeObjectIdentifier oc = Inr (getOid vb)"
    using encodeObjectIdentifier_valid [of "getOid vb" "[]"] assms
    by (auto simp: valid_varbind_def)
  obtain vc where vc: "encodeValue vb (tlv OBJECT_IDENTIFIER oc)
        = Inr (length (tlv ?t vc), tlv OBJECT_IDENTIFIER oc @ tlv ?t vc)"
      "length vc < 256 ^ 127 \<longrightarrow> ?t \<noteq> NO_SUCH_OBJECT \<longrightarrow>
         (\<exists>v vb'. decodeValue (tlv ?t vc @ rest) = Inr (?t, v, rest)
            \<and> newVarbindForType ?t v (getOid vb) = Inr vb'
            \<and> getOid vb' = getOid vb \<and> typeTag vb' = ?t)"
    using encodeValue_valid [of vb "tlv OBJECT_IDENTIFIER oc" rest "getOid vb"] assms
    by (auto simp: valid_varbind_def)
  have "encodeVarbind newBerEncoder vb
           = Inr (length (tlv SEQUENCE (tlv OBJECT_IDENTIFIER oc @ tlv ?t vc)),
                  tlv SEQUENCE (tlv OBJECT_IDENTIFIER oc @ tlv ?t vc))"
    by (simp add: encodeVarbind_def newBerEncoder_def newHeader_def oc(1) vc(1)
        setContentLength_def Let_def tlv_def [of SEQUENCE])
  with oc(2) vc(2) show ?thesis by blast
qed

text \<open>
  What survives the round trip. For a varbind of one of the six variants that implement
  the \<^verbatim>\<open>Varbind\<close> interface, with a valid OID and a value in the variant's valid
  domain: \<^verbatim>\<open>encodeVarbind\<close> succeeds and returns the number of bytes it wrote, and
  (the length being one that a Go \<^verbatim>\<open>int\<close> holds) decoding these bytes succeeds,
  consumes exactly them, and yields a varbind of the same variant (same type tag) with the
  same OID.
\<close>

lemma decodeVarbind_encodeVarbind:
  assumes valid: "valid_varbind vb"
    and six: "typeTag vb \<noteq> NO_SUCH_OBJECT"
  shows "\<exists>n encoded.
           encodeVarbind newBerEncoder vb = Inr (n, encoded) \<and> n = length encoded
         \<and> (n < 2 ^ 63 \<longrightarrow>
              (\<exists>vb'. decodeVarbind (encoded @ rest) = Inr (vb', rest)
                 \<and> getOid vb' = getOid vb \<and> typeTag vb' = typeTag vb))"
proof -
  let ?t = "typeTag vb"
  obtain oc vc where e: "encodeVarbind newBerEncoder vb
           = Inr (length (tlv SEQUENCE (tlv OBJECT_IDENTIFIER oc @ tlv ?t vc)),
                  tlv SEQUENCE (tlv OBJECT_IDENTIFIER oc @ tlv ?t vc))"
     and o: "decodeObjectIdentifier oc = Inr (getOid vb)"
     and v: "length vc < 256 ^ 127 \<longrightarrow> ?t \<noteq> NO_SUCH_OBJECT \<longrightarrow>
              (\<exists>v vb'. decodeValue (tlv ?t vc @ rest) = Inr (?t, v, rest)
                   \<and> newVarbindForType ?t v (getOid vb) = Inr vb'
                   \<and> getOid vb' = getOid vb \<and> typeTag vb' = ?t)"
    using encodeVarbind_valid [OF valid, of rest] by blast
  let ?body = "tlv OBJECT_IDENTIFIER oc @ tlv ?t vc"
  let ?encoded = "tlv SEQUENCE ?body"
  have "\<exists>vb'. decodeVarbind (?encoded @ rest) = Inr (vb', rest)
                 \<and> getOid vb' = getOid vb \<and> typeTag vb' = ?t"
    if fits: "length ?encoded < 2 ^ 63"
  proof -
    have small: "(2::nat) ^ 63 < 256 ^ 127"
      by simp
    have "length ?body \<le> length ?encoded"
      by (rule length_tlv)
    then have body: "length ?body < 256 ^ 127"
      using fits small by linarith
    have "length oc \<le> length ?body" "length vc \<le> length ?body"
      using length_tlv [of oc OBJECT_IDENTIFIER] length_tlv [of vc ?t] by simp_all
    then have oc: "length oc < 256 ^ 127" and vc: "length vc < 256 ^ 127"
      using body by linarith+
    obtain val vb' where d: "decodeValue (tlv ?t vc @ rest) = Inr (?t, val, rest)"
        "newVarbindForType ?t val (getOid vb) = Inr vb'"
        "getOid vb' = getOid vb" "typeTag vb' = ?t"
      using v vc six by blast
    have h: "decodeHeader (?encoded @ rest) = Inr (SEQUENCE, length ?body, ?body @ rest)"
      by (rule decodeHeader_tlv [OF body])
    have oid: "decodeObjectIdentifierWithHeader (tlv OBJECT_IDENTIFIER oc @ tlv ?t vc @ rest)
        = Inr (getOid vb, tlv ?t vc @ rest)"
      by (rule decodeObjectIdentifierWithHeader_tlv [OF o oc])
    have "decodeVarbind (?encoded @ rest) = Inr (vb', rest)"
      by (simp add: decodeVarbind_def h oid d(1,2) Let_def)
    with d(3,4) show ?thesis by blast
  qed
  with e show ?thesis by blast
qed

text \<open>
  The same at the varbind of the spec's first scenario, \<open>1.3.6.1.2.1.1.1.0\<close> bound to
  the octet string "hello".
\<close>

lemma decodeVarbind_encodeVarbind_hello:
  "valid_varbind (OctetStringVarbind [1,3,6,1,2,1,1,1,0] [104,101,108,108,111])
   \<and> typeTag (OctetStringVarbind [1,3,6,1,2,1,1,1,0] [104,101,108,108,111]) \<noteq> NO_SUCH_OBJECT
   \<and> encodeVarbind newBerEncoder (OctetStringVarbind [1,3,6,1,2,1,1,1,0] [104,101,108,108,111])
       = Inr (19, [48,17,6,8,43,6,1,2,1,1,1,0,4,5,104,101,108,108,111])
   \<and> (19::nat) < 2 ^ 63
   \<and> (\<exists>vb'. decodeVarbind ([48,17,6,8,43,6,1,2,1,1,1,0,4,5,104,101,108,108,111] @ [7,7])
               = Inr (vb', [7,7])
          \<and> getOid vb' = [1,3,6,1,2,1,1,1,0]
          \<and> typeTag vb' = OCTET_STRING)"
proof -
  let ?vb = "OctetStringVarbind [1,3,6,1,2,1,1,1,0] [104,101,108,108,111]"
  have h1: "valid_varbind ?vb"
    by (simp add: valid_varbind_def)
  have h2: "typeTag ?vb \<noteq> NO_SUCH_OBJECT"
    by (simp add: tag_defs)
  have h3: "encodeVarbind newBerEncoder ?vb
       = Inr (19, [48,17,6,8,43,6,1,2,1,1,1,0,4,5,104,101,108,108,111])"
    by code_simp
  have h4: "(19::nat) < 2 ^ 63"
    by simp
  show ?thesis
    using h1 h2 h3 h4 decodeVarbind_encodeVarbind [OF h1 h2, of "[7,7]"] by auto
qed

text \<open>
  What does not survive is the value. \<^verbatim>\<open>decodeVarbind\<close> builds its result with the
  constructors \<^verbatim>\<open>NewIntegerVarbind(oid, value.(int32))\<close> and so on, and these never
  store their value argument: whatever bytes are decoded, the varbind that comes back
  carries the zero value of its Go type.
\<close>

lemma decodeVarbind_zero_value:
  assumes "decodeVarbind decoder = Inr (vb, rest)"
  shows "vb = IntegerVarbind (getOid vb) 0 \<or> vb = BitStringVarbind (getOid vb) None
       \<or> vb = OctetStringVarbind (getOid vb) [] \<or> vb = NullVarbind (getOid vb)
       \<or> vb = ObjectIdentifierVarbind (getOid vb) [] \<or> vb = IPv4AddressVarbind (getOid vb) []"
proof -
  have new: "newVarbindForType t v oid = Inr x \<Longrightarrow>
      x = IntegerVarbind (getOid x) 0 \<or> x = BitStringVarbind (getOid x) None
       \<or> x = OctetStringVarbind (getOid x) [] \<or> x = NullVarbind (getOid x)
       \<or> x = ObjectIdentifierVarbind (getOid x) [] \<or> x = IPv4AddressVarbind (getOid x) []"
    for t v oid x
    by (auto simp: newVarbindForType_def New_defs split: if_splits berValue.splits)
  from assms obtain t v oid where "newVarbindForType t v oid = Inr vb"
    by (auto simp: decodeVarbind_def Let_def split: sum.splits prod.splits if_splits)
  then show ?thesis
    by (rule new)
qed

text \<open>
  C1 fails on the code. The Integer32 varbind \<open>1.3.6.1.2.1.1.3.0 = 5\<close> is valid and is
  encoded to 15 bytes. Decoding these bytes succeeds: \<^verbatim>\<open>decodeValue\<close> reads the
  value 5 from the bytes \<open>02 01 05\<close>, \<^verbatim>\<open>decodeVarbind\<close> hands it to
  \<^verbatim>\<open>NewIntegerVarbind\<close>, which drops it, and the varbind that comes back carries the
  value 0, not 5. Likewise the octet string "hello" bound to \<open>1.3.6.1.2.1.1.1.0\<close> comes
  back as the empty octet string. The round trip keeps the OID and the type tag and loses
  the value.
\<close>

theorem decodeVarbind_drops_decoded_value:
  "valid_varbind (IntegerVarbind [1,3,6,1,2,1,1,3,0] 5)
   \<and> encodeVarbind newBerEncoder (IntegerVarbind [1,3,6,1,2,1,1,3,0] 5)
       = Inr (15, [48,13,6,8,43,6,1,2,1,1,3,0,2,1,5])
   \<and> decodeValue [2,1,5] = Inr (INTEGER, IntV 5, [])
   \<and> newVarbindForType INTEGER (IntV 5) [1,3,6,1,2,1,1,3,0]
       = Inr (IntegerVarbind [1,3,6,1,2,1,1,3,0] 0)
   \<and> decodeVarbind [48,13,6,8,43,6,1,2,1,1,3,0,2,1,5]
       = Inr (IntegerVarbind [1,3,6,1,2,1,1,3,0] 0, [])
   \<and> IntegerVarbind [1,3,6,1,2,1,1,3,0] 0 \<noteq> IntegerVarbind [1,3,6,1,2,1,1,3,0] 5
   \<and> valid_varbind (OctetStringVarbind [1,3,6,1,2,1,1,1,0] [104,101,108,108,111])
   \<and> encodeVarbind newBerEncoder (OctetStringVarbind [1,3,6,1,2,1,1,1,0] [104,101,108,108,111])
       = Inr (19, [48,17,6,8,43,6,1,2,1,1,1,0,4,5,104,101,108,108,111])
   \<and> decodeVarbind [48,17,6,8,43,6,1,2,1,1,1,0,4,5,104,101,108,108,111]
       = Inr (OctetStringVarbind [1,3,6,1,2,1,1,1,0] [], [])
   \<and> OctetStringVarbind [1,3,6,1,2,1,1,1,0] []
       \<noteq> OctetStringVarbind [1,3,6,1,2,1,1,1,0] [104,101,108,108,111]"
proof -
  have "valid_varbind (IntegerVarbind [1,3,6,1,2,1,1,3,0] 5)"
    by (simp add: valid_varbind_def)
  moreover have "encodeVarbind newBerEncoder (IntegerVarbind [1,3,6,1,2,1,1,3,0] 5)
       = Inr (15, [48,13,6,8,43,6,1,2,1,1,3,0,2,1,5])"
    by code_simp
  moreover have "decodeValue [2,1,5] = Inr (INTEGER, IntV 5, [])"
    by code_simp
  moreover have "newVarbindForType INTEGER (IntV 5) [1,3,6,1,2,1,1,3,0]
       = Inr (IntegerVarbind [1,3,6,1,2,1,1,3,0] 0)"
    by (simp add: newVarbindForType_def New_defs)
  moreover have "decodeVarbind [48,13,6,8,43,6,1,2,1,1,3,0,2,1,5]
       = Inr (IntegerVarbind [1,3,6,1,2,1,1,3,0] 0, [])"
    by code_simp
  moreover have "valid_varbind (OctetStringVarbind [1,3,6,1,2,1,1,1,0] [104,101,108,108,111])"
    by (simp add: valid_varbind_def)
  moreover have "encodeVarbind newBerEncoder
         (OctetStringVarbind [1,3,6,1,2,1,1,1,0] [104,101,108,108,111])
       = Inr (19, [48,17,6,8,43,6,1,2,1,1,1,0,4,5,104,101,108,108,111])"
    by code_simp
  moreover have "decodeVarbind [48,17,6,8,43,6,1,2,1,1,1,0,4,5,104,101,108,108,111]
       = Inr (OctetStringVarbind [1,3,6,1,2,1,1,1,0] [], [])"
    by code_simp
  ultimately show ?thesis
    by simp
qed

text \<open>
  The tags of the remaining variants of the data model are refused: a well-formed varbind
  whose value carries the Counter32 tag 0x41, or the noSuchObject marker that
  \<open>encodeValue\<close> writes, ends in \<^verbatim>\<open>Unknown value type\<close>.
\<close>

lemma decodeVarbind_unknown_tags:
  "decodeVarbind [48,13,6,8,43,6,1,2,1,1,3,0,65,1,5] = Inl (UnknownValueType 65)"
  "encodeVarbind newBerEncoder (NoSuchObjectVarbind [1,3,6,1,4,1,2,0])
     = Inr (13, [48,11,6,7,43,6,1,4,1,2,0,128,0])"
  "decodeVarbind [48,11,6,7,43,6,1,4,1,2,0,128,0] = Inl (UnknownValueType 128)"
  by code_simp+

section \<open>Agent dispatch\<close>

text \<open>
  The agent's source file (the second unnamed part) holds \<^verbatim>\<open>TransactionProvider\<close>,
  \<^verbatim>\<open>Agent\<close>, \<^verbatim>\<open>processcommunityRequest\<close>, \<^verbatim>\<open>lookupHandler\<close>, the handler
  interface and \<^verbatim>\<open>oidTreeNode\<close>. A Go \<^verbatim>\<open>error\<close> is kept as its message.
\<close>

type_synonym goError = string

text \<open>The PDU types, as \<^verbatim>\<open>recordIncomingMessage\<close> of snmp.go lists them.\<close>

datatype pduType =
    pduType_GET_REQUEST
  | pduType_GET_NEXT_REQUEST
  | pduType_RESPONSE
  | pduType_SET_REQUEST
  | pduType_GET_BULK_REQUEST
  | pduType_V1_TRAP
  | pduType_V2_TRAP

text \<open>
  Modelled from the spec: the constant is missing from the sources; section 6 numbers
  the error-status codes, resourceUnavailable being 13.
\<close>

definition SnmpRequestErrorType_RESOURCE_UNAVAILABLE :: nat where
  "SnmpRequestErrorType_RESOURCE_UNAVAILABLE = 13"

text \<open>
  Modelled from the spec: the request and response structs are missing from the sources.
  Section 3: a PDU has a type tag, a request-id (uint32), error-status, error-index and an
  ordered sequence of varbinds. \<^verbatim>\<open>createResponse\<close> answers a request with an empty
  response PDU of the same request-id and \<^verbatim>\<open>AddVarbind\<close> appends to its varbinds.
\<close>

record communityPdu =
  pduType :: pduType
  requestID :: "32 word"
  errorVal :: nat
  errorIdx :: nat
  varbinds :: "Varbind list"

type_synonym communityRequest = communityPdu
type_synonym communityResponse = communityPdu

definition createResponse :: "communityRequest \<Rightarrow> communityResponse" where
  "createResponse req =
     \<lparr>pduType = pduType_RESPONSE, requestID = requestID req, errorVal = 0, errorIdx = 0,
      varbinds = []\<rparr>"

definition AddVarbind :: "communityResponse \<Rightarrow> Varbind \<Rightarrow> communityResponse" where
  "AddVarbind resp vb = resp\<lparr>varbinds := varbinds resp @ [vb]\<rparr>"

text \<open>
  The interfaces. A transaction is an \<^verbatim>\<open>interface{}\<close>, nil or a reference \<open>'t\<close>. The
  provider and the handlers are supplied by the embedding program and may have effects of
  their own: each method takes and returns the state \<open>'w\<close> of that program.
\<close>

record ('t, 'w) TransactionProvider =
  StartTxn :: "'w \<Rightarrow> 't option \<times> 'w"
  CommitTxn :: "'t option \<Rightarrow> 'w \<Rightarrow> bool \<times> 'w"
  AbortTxn :: "'t option \<Rightarrow> 'w \<Rightarrow> 'w"

record ('t, 'w) oidHandler =
  Get :: "ObjectIdentifier \<Rightarrow> 't option \<Rightarrow> 'w \<Rightarrow> (goError + Varbind) \<times> 'w"
  Set :: "Varbind \<Rightarrow> 't option \<Rightarrow> 'w \<Rightarrow> (goError + Varbind) \<times> 'w"

record ('t, 'w) oidTreeNode =
  oid :: ObjectIdentifier
  isMulti :: bool
  handler :: "('t, 'w) oidHandler"

text \<open>
  The agent. Its \<^verbatim>\<open>llrb.Tree\<close> comes from an external library and is kept as the list
  of the nodes stored in it.
\<close>

record ('t, 'w) Agent =
  oidTree :: "('t, 'w) oidTreeNode list"
  txnProvider :: "('t, 'w) TransactionProvider"

text \<open>
  What \<^verbatim>\<open>processcommunityRequest\<close> changes: the embedding program's state and the
  outbound queue of the context. \<open>handlerCalls\<close> is a ghost field: every call of a
  handler's \<^verbatim>\<open>Get\<close> or \<^verbatim>\<open>Set\<close> is appended to it.
\<close>

datatype handlerCall = CalledGet ObjectIdentifier | CalledSet Varbind

record 'w agentState =
  world :: 'w
  handlerCalls :: "handlerCall list"
  outboundFlowControlQueue :: "communityResponse list"

text \<open>
  Modelled from the spec: \<^verbatim>\<open>MatchLength\<close> and \<^verbatim>\<open>Compare\<close> of
  \<^verbatim>\<open>ObjectIdentifier\<close> are missing from the sources. Section 3: the total order is the
  lexicographic comparison, and \<open>MatchLength a b\<close> is the length of the common prefix.
\<close>

fun MatchLength :: "ObjectIdentifier \<Rightarrow> ObjectIdentifier \<Rightarrow> nat" where
  "MatchLength (x # xs) (y # ys) = (if x = y then Suc (MatchLength xs ys) else 0)"
| "MatchLength _ _ = 0"

fun Compare :: "ObjectIdentifier \<Rightarrow> ObjectIdentifier \<Rightarrow> int" where
  "Compare [] [] = 0"
| "Compare [] (y # ys) = - 1"
| "Compare (x # xs) [] = 1"
| "Compare (x # xs) (y # ys) = (if x < y then - 1 else if y < x then 1 else Compare xs ys)"

text \<open>
  Modelled from the spec: \<^verbatim>\<open>Ceil\<close> belongs to the external tree library; sections 3
  and 9: it returns the least stored key that is greater than or equal to the query, and
  nothing when there is none.
\<close>

fun Ceil :: "('t, 'w) oidTreeNode list \<Rightarrow> ObjectIdentifier \<Rightarrow> ('t, 'w) oidTreeNode option" where
  "Ceil [] q = None"
| "Ceil (n # ns) q =
     (if Compare q (oid n) \<le> 0 then
        (case Ceil ns q of
           None \<Rightarrow> Some n
         | Some m \<Rightarrow> if Compare (oid n) (oid m) \<le> 0 then Some n else Some m)
      else Ceil ns q)"

text \<open>\<^verbatim>\<open>lookupHandler\<close> (the logging aside).\<close>

definition lookupHandler :: "('t, 'w) Agent \<Rightarrow> ObjectIdentifier \<Rightarrow> ('t, 'w) oidTreeNode option" where
  "lookupHandler agent reqOid =
     (case Ceil (oidTree agent) reqOid of
        None \<Rightarrow> None
      | Some node \<Rightarrow>
          if MatchLength (oid node) reqOid \<noteq> length (oid node) then None else Some node)"

text \<open>
  \<^verbatim>\<open>sendResponse\<close> (snmp.go) sends on the outbound channel. The send is modelled where
  it completes: the response joins the queue.
\<close>

definition sendResponse :: "communityResponse \<Rightarrow> 'w agentState \<Rightarrow> 'w agentState" where
  "sendResponse resp st =
     st\<lparr>outboundFlowControlQueue := outboundFlowControlQueue st @ [resp]\<rparr>"

text \<open>
  The body of the loop \<^verbatim>\<open>for _, requestVb := range req.varbinds\<close>, on the response
  built so far and the state; then the loop, and the whole of
  \<^verbatim>\<open>processcommunityRequest\<close>. \<open>initialResponse\<close> is the response as it stands when
  the loop starts: \<^verbatim>\<open>createResponse\<close>, marked \<^verbatim>\<open>RESOURCE_UNAVAILABLE\<close> with error
  index 1 when \<^verbatim>\<open>StartTxn\<close> returned nil. The function calls neither
  \<^verbatim>\<open>CommitTxn\<close> nor \<^verbatim>\<open>AbortTxn\<close>.
\<close>

definition processVarbind ::
  "('t, 'w) Agent \<Rightarrow> communityRequest \<Rightarrow> 't option \<Rightarrow> Varbind
   \<Rightarrow> communityResponse \<times> 'w agentState \<Rightarrow> communityResponse \<times> 'w agentState" where
  "processVarbind agent req txn requestVb acc =
     (case acc of (resp, st) \<Rightarrow>
       (case lookupHandler agent (getOid requestVb) of
          None \<Rightarrow> (AddVarbind resp (NewNoSuchObjectVarbind (getOid requestVb)), st)
        | Some node \<Rightarrow>
           (case pduType req of
              pduType_GET_REQUEST \<Rightarrow>
                (case Get (handler node) (getOid requestVb) txn (world st) of
                   (r, w) \<Rightarrow>
                    (let st' = st\<lparr>world := w,
                                   handlerCalls := handlerCalls st @ [CalledGet (getOid requestVb)]\<rparr>
                     in case r of
                          Inl err \<Rightarrow> (resp, st')
                        | Inr responseVb \<Rightarrow> (AddVarbind resp responseVb, st')))
            | pduType_SET_REQUEST \<Rightarrow>
                (case Set (handler node) requestVb txn (world st) of
                   (r, w) \<Rightarrow>
                    (let st' = st\<lparr>world := w,
                                   handlerCalls := handlerCalls st @ [CalledSet requestVb]\<rparr>
                     in case r of
                          Inl err \<Rightarrow> (resp, st')
                        | Inr responseVb \<Rightarrow> (AddVarbind resp responseVb, st')))
            | _ \<Rightarrow> (resp, st))))"

definition processVarbinds ::
  "('t, 'w) Agent \<Rightarrow> communityRequest \<Rightarrow> 't option \<Rightarrow> Varbind list
   \<Rightarrow> communityResponse \<times> 'w agentState \<Rightarrow> communityResponse \<times> 'w agentState" where
  "processVarbinds agent req txn vbs acc =
     foldl (\<lambda>a requestVb. processVarbind agent req txn requestVb a) acc vbs"

definition initialResponse :: "communityRequest \<Rightarrow> 't option \<Rightarrow> communityResponse" where
  "initialResponse req txn =
     (let resp = createResponse req in
      if txn = None
      then resp\<lparr>errorVal := SnmpRequestErrorType_RESOURCE_UNAVAILABLE, errorIdx := 1\<rparr>
      else resp)"

definition processcommunityRequest ::
  "('t, 'w) Agent \<Rightarrow> communityRequest \<Rightarrow> 'w agentState \<Rightarrow> 'w agentState" where
  "processcommunityRequest agent req st =
     (case StartTxn (txnProvider agent) (world st) of
        (txn, w) \<Rightarrow>
          (case processVarbinds agent req txn (varbinds req)
                  (initialResponse req txn, st\<lparr>world := w\<rparr>) of
             (resp, st') \<Rightarrow> sendResponse resp st'))"

subsection \<open>Properties of the dispatch\<close>

lemma MatchLength_prefix: "MatchLength a b = length a \<longleftrightarrow> prefix a b"
  by (induction a b rule: MatchLength.induct) auto

lemma processVarbinds_append:
  "processVarbinds agent req txn (xs @ ys) acc
     = processVarbinds agent req txn ys (processVarbinds agent req txn xs acc)"
  by (simp add: processVarbinds_def)

lemma processVarbinds_Cons:
  "processVarbinds agent req txn (vb # ys) acc
     = processVarbinds agent req txn ys (processVarbind agent req txn vb acc)"
  by (simp add: processVarbinds_def)

text \<open>
  The loop only ever appends to the response: what it holds at some point is a prefix of
  what it holds later.
\<close>

lemma processVarbind_varbinds:
  assumes "processVarbind agent req txn vb (r, s) = (r', s')"
  shows "prefix (varbinds r) (varbinds r')"
  using assms
  by (auto simp: processVarbind_def AddVarbind_def Let_def
      split: option.splits pduType.splits prod.splits sum.splits)

lemma processVarbinds_varbinds:
  assumes "processVarbinds agent req txn vbs (r, s) = (r', s')"
  shows "prefix (varbinds r) (varbinds r')"
  using assms
proof (induction vbs arbitrary: r s)
  case Nil
  then show ?case by (simp add: processVarbinds_def)
next
  case (Cons vb vbs)
  obtain r1 s1 where step: "processVarbind agent req txn vb (r, s) = (r1, s1)"
    by (cases "processVarbind agent req txn vb (r, s)")
  then have "processVarbinds agent req txn vbs (r1, s1) = (r', s')"
    using Cons.prems by (simp add: processVarbinds_Cons)
  then show ?case
    using Cons.IH [of r1 s1] processVarbind_varbinds [OF step] by (meson prefix_order.trans)
qed

text \<open>
  C7. Let \<^verbatim>\<open>processcommunityRequest\<close> handle a request, and let \<open>requestVb\<close> be
  any of its varbinds, \<open>xs\<close> those before it and \<open>ys\<close> those after it; let the loop
  have built the response \<open>resp'\<close> and reached the state \<open>st'\<close> on \<open>xs\<close>. When the
  ceiling lookup for the OID of \<open>requestVb\<close> finds nothing (an empty tree included), or
  finds a node whose OID is not a prefix of the requested OID, then \<^verbatim>\<open>lookupHandler\<close>
  returns nil and the loop body (on any response and state, so on \<open>resp'\<close> and \<open>st'\<close>)
  appends \<open>NoSuchObject\<close> with the requested OID to the response and leaves the state
  as it was: the embedding program's state is untouched and no handler call is recorded.
  The loop goes on with \<open>ys\<close> from there, and \<^verbatim>\<open>processcommunityRequest\<close> queues the
  response so built, which holds the varbinds of \<open>resp'\<close> followed by that
  \<open>NoSuchObject\<close> varbind.
\<close>

theorem lookup_miss_appends_NoSuchObject:
  assumes start: "StartTxn (txnProvider agent) (world st) = (txn, w1)"
    and split: "varbinds req = xs @ requestVb # ys"
    and before: "processVarbinds agent req txn xs (initialResponse req txn, st\<lparr>world := w1\<rparr>)
                   = (resp', st')"
    and miss: "case Ceil (oidTree agent) (getOid requestVb) of
                 None \<Rightarrow> True
               | Some node \<Rightarrow> \<not> prefix (oid node) (getOid requestVb)"
  shows "lookupHandler agent (getOid requestVb) = None
       \<and> processVarbind agent req t requestVb (r, s)
           = (r\<lparr>varbinds := varbinds r @ [NoSuchObjectVarbind (getOid requestVb)]\<rparr>, s)
       \<and> (\<exists>resp3 st3.
            processVarbinds agent req txn ys
                (resp'\<lparr>varbinds := varbinds resp' @ [NoSuchObjectVarbind (getOid requestVb)]\<rparr>, st')
              = (resp3, st3)
          \<and> processcommunityRequest agent req st = sendResponse resp3 st3
          \<and> prefix (varbinds resp' @ [NoSuchObjectVarbind (getOid requestVb)]) (varbinds resp3))"
proof -
  let ?nso = "NoSuchObjectVarbind (getOid requestVb)"
  have none: "lookupHandler agent (getOid requestVb) = None"
    using miss by (auto simp: lookupHandler_def MatchLength_prefix split: option.splits)
  have step: "processVarbind agent req t' requestVb (r', s')
           = (r'\<lparr>varbinds := varbinds r' @ [?nso]\<rparr>, s')" for t' r' s'
    by (simp add: processVarbind_def none AddVarbind_def NewNoSuchObjectVarbind_def)
  obtain resp3 st3 where rest:
      "processVarbinds agent req txn ys (resp'\<lparr>varbinds := varbinds resp' @ [?nso]\<rparr>, st')
         = (resp3, st3)"
    by (cases "processVarbinds agent req txn ys
                 (resp'\<lparr>varbinds := varbinds resp' @ [?nso]\<rparr>, st')")
  have whole: "processVarbinds agent req txn (varbinds req)
                 (initialResponse req txn, st\<lparr>world := w1\<rparr>) = (resp3, st3)"
    by (simp add: split processVarbinds_append processVarbinds_Cons before step rest)
  have sent: "processcommunityRequest agent req st = sendResponse resp3 st3"
    by (simp add: processcommunityRequest_def start whole)
  have pre: "prefix (varbinds resp' @ [?nso]) (varbinds resp3)"
    using processVarbinds_varbinds [OF rest] by simp
  from none step [of t r s] rest sent pre show ?thesis
    by blast
qed

lemma processVarbind_frame:
  assumes "processVarbind agent req txn vb (r, s) = (r', s')"
  shows "errorVal r' = errorVal r \<and> errorIdx r' = errorIdx r \<and> requestID r' = requestID r
       \<and> outboundFlowControlQueue s' = outboundFlowControlQueue s"
  using assms
  by (auto simp: processVarbind_def AddVarbind_def Let_def
      split: option.splits pduType.splits prod.splits sum.splits)

lemma processVarbinds_frame:
  assumes "processVarbinds agent req txn vbs (r, s) = (r', s')"
  shows "errorVal r' = errorVal r \<and> errorIdx r' = errorIdx r \<and> requestID r' = requestID r
       \<and> outboundFlowControlQueue s' = outboundFlowControlQueue s"
  using assms
proof (induction vbs arbitrary: r s)
  case Nil
  then show ?case by (simp add: processVarbinds_def)
next
  case (Cons vb vbs)
  obtain r1 s1 where step: "processVarbind agent req txn vb (r, s) = (r1, s1)"
    by (cases "processVarbind agent req txn vb (r, s)")
  then have "processVarbinds agent req txn vbs (r1, s1) = (r', s')"
    using Cons.prems by (simp add: processVarbinds_Cons)
  then show ?case
    using Cons.IH [of r1 s1] processVarbind_frame [OF step] by simp
qed

text \<open>
  C8. Let a request varbind have a handler, and let the handler's \<^verbatim>\<open>Get\<close> (for a GET
  request) or \<^verbatim>\<open>Set\<close> (for a SET request) return an error. Then the loop body leaves
  the response built so far as it is, the varbinds after it are processed from the state
  the handler left, and \<^verbatim>\<open>processcommunityRequest\<close> queues the response so built, its
  error status and error index being those set before the loop.
\<close>

theorem handler_error_omits_varbind:
  assumes start: "StartTxn (txnProvider agent) (world st) = (txn, w1)"
    and split: "varbinds req = xs @ requestVb # ys"
    and before: "processVarbinds agent req txn xs (initialResponse req txn, st\<lparr>world := w1\<rparr>)
                   = (resp', st')"
    and hit: "lookupHandler agent (getOid requestVb) = Some node"
    and err: "pduType req = pduType_GET_REQUEST
                \<and> Get (handler node) (getOid requestVb) txn (world st') = (Inl e, w2)
              \<or> pduType req = pduType_SET_REQUEST
                \<and> Set (handler node) requestVb txn (world st') = (Inl e, w2)"
  shows "\<exists>st2 resp3 st3.
           processVarbind agent req txn requestVb (resp', st') = (resp', st2)
         \<and> world st2 = w2
         \<and> processVarbinds agent req txn ys (resp', st2) = (resp3, st3)
         \<and> processcommunityRequest agent req st = sendResponse resp3 st3
         \<and> errorVal resp3 = errorVal (initialResponse req txn)
         \<and> errorIdx resp3 = errorIdx (initialResponse req txn)"
proof -
  obtain st2 where step: "processVarbind agent req txn requestVb (resp', st') = (resp', st2)"
      and w: "world st2 = w2"
    using err by (auto simp: processVarbind_def hit Let_def)
  obtain resp3 st3 where rest: "processVarbinds agent req txn ys (resp', st2) = (resp3, st3)"
    by (cases "processVarbinds agent req txn ys (resp', st2)")
  have whole: "processVarbinds agent req txn (varbinds req) (initialResponse req txn, st\<lparr>world := w1\<rparr>)
                 = (resp3, st3)"
    by (simp add: split processVarbinds_append processVarbinds_Cons before step rest)
  have sent: "processcommunityRequest agent req st = sendResponse resp3 st3"
    by (simp add: processcommunityRequest_def start whole)
  have "errorVal resp3 = errorVal (initialResponse req txn)
      \<and> errorIdx resp3 = errorIdx (initialResponse req txn)"
    using processVarbinds_frame [OF whole] by simp
  with step w rest sent show ?thesis by blast
qed

lemma processVarbind_no_commit:
  "processVarbind (agent\<lparr>txnProvider := p\<rparr>) req txn vb acc = processVarbind agent req txn vb acc"
  by (simp add: processVarbind_def lookupHandler_def)

lemma processcommunityRequest_no_commit:
  "processcommunityRequest
     (agent\<lparr>txnProvider := (txnProvider agent)\<lparr>CommitTxn := c, AbortTxn := a\<rparr>\<rparr>) req st
   = processcommunityRequest agent req st"
  by (simp add: processcommunityRequest_def processVarbinds_def processVarbind_no_commit)

subsection \<open>C3: the transaction\<close>

text \<open>
  A provider that counts its calls: \<open>started\<close>, \<open>committed\<close> and \<open>aborted\<close> are the
  numbers of \<^verbatim>\<open>StartTxn\<close>, \<^verbatim>\<open>CommitTxn\<close> and \<^verbatim>\<open>AbortTxn\<close> calls so far.
\<close>

record txnLedger =
  started :: nat
  committed :: nat
  aborted :: nat

definition ledgerProvider :: "(nat, txnLedger) TransactionProvider" where
  "ledgerProvider =
     \<lparr>StartTxn = (\<lambda>w. (Some (started w), w\<lparr>started := started w + 1\<rparr>)),
      CommitTxn = (\<lambda>t w. (True, w\<lparr>committed := committed w + 1\<rparr>)),
      AbortTxn = (\<lambda>t w. w\<lparr>aborted := aborted w + 1\<rparr>)\<rparr>"

text \<open>
  C3 fails on the code. A GET request for \<open>1.3.6.1.2.1.1.1.0\<close> to an agent with the
  counting provider: once \<^verbatim>\<open>processcommunityRequest\<close> has returned, the response is in
  the outbound queue and one transaction was started, but none was committed and none
  aborted.
\<close>

theorem transaction_left_open:
  "processcommunityRequest
     \<lparr>oidTree = [], txnProvider = ledgerProvider\<rparr>
     \<lparr>pduType = pduType_GET_REQUEST, requestID = 7, errorVal = 0, errorIdx = 0,
      varbinds = [NullVarbind [1,3,6,1,2,1,1,1,0]]\<rparr>
     \<lparr>world = \<lparr>started = 0, committed = 0, aborted = 0\<rparr>, handlerCalls = [],
      outboundFlowControlQueue = []\<rparr>
   = \<lparr>world = \<lparr>started = 1, committed = 0, aborted = 0\<rparr>, handlerCalls = [],
      outboundFlowControlQueue =
        [\<lparr>pduType = pduType_RESPONSE, requestID = 7, errorVal = 0, errorIdx = 0,
          varbinds = [NoSuchObjectVarbind [1,3,6,1,2,1,1,1,0]]\<rparr>]\<rparr>"
  by (simp add: processcommunityRequest_def processVarbinds_def processVarbind_def
      lookupHandler_def ledgerProvider_def initialResponse_def createResponse_def
      AddVarbind_def NewNoSuchObjectVarbind_def sendResponse_def)

subsection \<open>An agent to run\<close>

text \<open>
  An agent with a handler for \<open>1.3.6.1.2.1.1.1.0\<close> that answers "hello" and a handler for
  \<open>1.3.6.1.2.1.1.3.0\<close> whose \<^verbatim>\<open>Get\<close> fails; the embedding program's state counts the
  handler calls. The request asks for four OIDs: the first and the last are answered, the
  second fails in its handler, the third has no handler.
\<close>

definition sysDescrHandler :: "(nat, nat) oidHandler" where
  "sysDescrHandler =
     \<lparr>Get = (\<lambda>reqOid txn w. (Inr (OctetStringVarbind reqOid [104,101,108,108,111]), w + 1)),
      Set = (\<lambda>vb txn w. (Inl ''read only'', w + 1))\<rparr>"

definition failingHandler :: "(nat, nat) oidHandler" where
  "failingHandler =
     \<lparr>Get = (\<lambda>reqOid txn w. (Inl ''no such instance'', w + 1)),
      Set = (\<lambda>vb txn w. (Inl ''read only'', w + 1))\<rparr>"

definition exampleProvider :: "(nat, nat) TransactionProvider" where
  "exampleProvider =
     \<lparr>StartTxn = (\<lambda>w. (Some 1, w)), CommitTxn = (\<lambda>t w. (True, w)), AbortTxn = (\<lambda>t w. w)\<rparr>"

definition exampleAgent :: "(nat, nat) Agent" where
  "exampleAgent =
     \<lparr>oidTree = [\<lparr>oid = [1,3,6,1,2,1,1,1,0], isMulti = False, handler = sysDescrHandler\<rparr>,
                 \<lparr>oid = [1,3,6,1,2,1,1,3,0], isMulti = False, handler = failingHandler\<rparr>],
      txnProvider = exampleProvider\<rparr>"

definition exampleRequest :: communityRequest where
  "exampleRequest =
     \<lparr>pduType = pduType_GET_REQUEST, requestID = 42, errorVal = 0, errorIdx = 0,
      varbinds = [NullVarbind [1,3,6,1,2,1,1,1,0], NullVarbind [1,3,6,1,2,1,1,3,0],
                  NullVarbind [1,3,6,1,2,1,1,2,0], NullVarbind [1,3,6,1,2,1,1,1,0]]\<rparr>"

definition exampleState :: "nat agentState" where
  "exampleState = \<lparr>world = 0, handlerCalls = [], outboundFlowControlQueue = []\<rparr>"

lemmas example_defs = exampleAgent_def exampleRequest_def exampleState_def exampleProvider_def
  sysDescrHandler_def failingHandler_def


text \<open>
  C7 at the example. The third varbind of the request asks for \<open>1.3.6.1.2.1.1.2.0\<close>,
  whose ceiling is the node \<open>1.3.6.1.2.1.1.3.0\<close>, no prefix of it: the queued response
  holds \<open>NoSuchObject\<close> for it between the answers to the first and the fourth varbind,
  and only three handler calls were made. And at the same agent without handlers, where
  every lookup finds nothing: the response holds four \<open>NoSuchObject\<close> varbinds and no
  handler was called.
\<close>

theorem lookup_miss_appends_NoSuchObject_witness:
  "StartTxn (txnProvider exampleAgent) (world exampleState) = (Some 1, 0)
   \<and> varbinds exampleRequest
       = [NullVarbind [1,3,6,1,2,1,1,1,0], NullVarbind [1,3,6,1,2,1,1,3,0]]
           @ NullVarbind [1,3,6,1,2,1,1,2,0] # [NullVarbind [1,3,6,1,2,1,1,1,0]]
   \<and> processVarbinds exampleAgent exampleRequest (Some 1)
         [NullVarbind [1,3,6,1,2,1,1,1,0], NullVarbind [1,3,6,1,2,1,1,3,0]]
         (initialResponse exampleRequest (Some 1), exampleState\<lparr>world := 0\<rparr>)
       = ((createResponse exampleRequest)
            \<lparr>varbinds := [OctetStringVarbind [1,3,6,1,2,1,1,1,0] [104,101,108,108,111]]\<rparr>,
          \<lparr>world = 2,
           handlerCalls = [CalledGet [1,3,6,1,2,1,1,1,0], CalledGet [1,3,6,1,2,1,1,3,0]],
           outboundFlowControlQueue = []\<rparr>)
   \<and> Ceil (oidTree exampleAgent) [1,3,6,1,2,1,1,2,0]
       = Some \<lparr>oid = [1,3,6,1,2,1,1,3,0], isMulti = False, handler = failingHandler\<rparr>
   \<and> \<not> prefix [1,3,6,1,2,1,1,3,0] [1,3,6,1,2,1,1,2,0::nat]
   \<and> lookupHandler exampleAgent (getOid (NullVarbind [1,3,6,1,2,1,1,2,0])) = None
   \<and> processcommunityRequest exampleAgent exampleRequest exampleState
       = \<lparr>world = 3,
          handlerCalls = [CalledGet [1,3,6,1,2,1,1,1,0], CalledGet [1,3,6,1,2,1,1,3,0],
                          CalledGet [1,3,6,1,2,1,1,1,0]],
          outboundFlowControlQueue =
            [\<lparr>pduType = pduType_RESPONSE, requestID = 42, errorVal = 0, errorIdx = 0,
              varbinds = [OctetStringVarbind [1,3,6,1,2,1,1,1,0] [104,101,108,108,111],
                          NoSuchObjectVarbind [1,3,6,1,2,1,1,2,0],
                          OctetStringVarbind [1,3,6,1,2,1,1,1,0] [104,101,108,108,111]]\<rparr>]\<rparr>
   \<and> (\<exists>resp3 st3.
         processVarbinds exampleAgent exampleRequest (Some 1) [NullVarbind [1,3,6,1,2,1,1,1,0]]
             ((createResponse exampleRequest)
                \<lparr>varbinds := [OctetStringVarbind [1,3,6,1,2,1,1,1,0] [104,101,108,108,111],
                              NoSuchObjectVarbind [1,3,6,1,2,1,1,2,0]]\<rparr>,
              \<lparr>world = 2,
               handlerCalls = [CalledGet [1,3,6,1,2,1,1,1,0], CalledGet [1,3,6,1,2,1,1,3,0]],
               outboundFlowControlQueue = []\<rparr>)
           = (resp3, st3)
         \<and> processcommunityRequest exampleAgent exampleRequest exampleState
             = sendResponse resp3 st3
         \<and> prefix [OctetStringVarbind [1,3,6,1,2,1,1,1,0] [104,101,108,108,111],
                    NoSuchObjectVarbind [1,3,6,1,2,1,1,2,0]] (varbinds resp3))
   \<and> StartTxn (txnProvider (exampleAgent\<lparr>oidTree := []\<rparr>)) (world exampleState) = (Some 1, 0)
   \<and> Ceil (oidTree (exampleAgent\<lparr>oidTree := []\<rparr>)) [1,3,6,1,2,1,1,1,0] = None
   \<and> processcommunityRequest (exampleAgent\<lparr>oidTree := []\<rparr>) exampleRequest exampleState
       = \<lparr>world = 0, handlerCalls = [],
          outboundFlowControlQueue =
            [\<lparr>pduType = pduType_RESPONSE, requestID = 42, errorVal = 0, errorIdx = 0,
              varbinds = [NoSuchObjectVarbind [1,3,6,1,2,1,1,1,0],
                          NoSuchObjectVarbind [1,3,6,1,2,1,1,3,0],
                          NoSuchObjectVarbind [1,3,6,1,2,1,1,2,0],
                          NoSuchObjectVarbind [1,3,6,1,2,1,1,1,0]]\<rparr>]\<rparr>
   \<and> (\<exists>resp3 st3.
         processVarbinds (exampleAgent\<lparr>oidTree := []\<rparr>) exampleRequest (Some 1)
             [NullVarbind [1,3,6,1,2,1,1,3,0], NullVarbind [1,3,6,1,2,1,1,2,0],
              NullVarbind [1,3,6,1,2,1,1,1,0]]
             ((createResponse exampleRequest)
                \<lparr>varbinds := [NoSuchObjectVarbind [1,3,6,1,2,1,1,1,0]]\<rparr>,
              exampleState)
           = (resp3, st3)
         \<and> processcommunityRequest (exampleAgent\<lparr>oidTree := []\<rparr>) exampleRequest exampleState
             = sendResponse resp3 st3
         \<and> prefix [NoSuchObjectVarbind [1,3,6,1,2,1,1,1,0]] (varbinds resp3))"
proof -
  let ?v1 = "NullVarbind [1,3,6,1,2,1,1,1,0]"
  let ?v2 = "NullVarbind [1,3,6,1,2,1,1,3,0]"
  let ?v3 = "NullVarbind [1,3,6,1,2,1,1,2,0]"
  let ?hello = "OctetStringVarbind [1,3,6,1,2,1,1,1,0] [104,101,108,108,111]"
  let ?resp' = "(createResponse exampleRequest)\<lparr>varbinds := [?hello]\<rparr>"
  let ?st' = "\<lparr>world = 2::nat,
           handlerCalls = [CalledGet [1,3,6,1,2,1,1,1,0], CalledGet [1,3,6,1,2,1,1,3,0]],
           outboundFlowControlQueue = []\<rparr>"
  let ?empty = "exampleAgent\<lparr>oidTree := []\<rparr>"
  have start: "StartTxn (txnProvider exampleAgent) (world exampleState) = (Some 1, 0)"
    by (simp add: example_defs)
  have split: "varbinds exampleRequest = [?v1, ?v2] @ ?v3 # [?v1]"
    by (simp add: example_defs)
  have before: "processVarbinds exampleAgent exampleRequest (Some 1) [?v1, ?v2]
         (initialResponse exampleRequest (Some 1), exampleState\<lparr>world := 0\<rparr>)
       = (?resp', ?st')"
    by (simp add: example_defs processVarbinds_def processVarbind_def lookupHandler_def
        initialResponse_def createResponse_def AddVarbind_def)
  have ceil: "Ceil (oidTree exampleAgent) [1,3,6,1,2,1,1,2,0]
       = Some \<lparr>oid = [1,3,6,1,2,1,1,3,0], isMulti = False, handler = failingHandler\<rparr>"
    by (simp add: exampleAgent_def)
  have np: "\<not> prefix [1,3,6,1,2,1,1,3,0] [1,3,6,1,2,1,1,2,0::nat]"
    by simp
  have miss: "case Ceil (oidTree exampleAgent) (getOid ?v3) of
      None \<Rightarrow> True
    | Some node \<Rightarrow> \<not> prefix (oid node) (getOid ?v3)"
    by (simp add: exampleAgent_def)
  have whole: "processcommunityRequest exampleAgent exampleRequest exampleState
       = \<lparr>world = 3,
          handlerCalls = [CalledGet [1,3,6,1,2,1,1,1,0], CalledGet [1,3,6,1,2,1,1,3,0],
                          CalledGet [1,3,6,1,2,1,1,1,0]],
          outboundFlowControlQueue =
            [\<lparr>pduType = pduType_RESPONSE, requestID = 42, errorVal = 0, errorIdx = 0,
              varbinds = [?hello, NoSuchObjectVarbind [1,3,6,1,2,1,1,2,0], ?hello]\<rparr>]\<rparr>"
    by (simp add: example_defs processcommunityRequest_def processVarbinds_def
        processVarbind_def lookupHandler_def initialResponse_def createResponse_def
        AddVarbind_def NewNoSuchObjectVarbind_def sendResponse_def)
  have start0: "StartTxn (txnProvider ?empty) (world exampleState) = (Some 1, 0)"
    by (simp add: example_defs)
  have split0: "varbinds exampleRequest = [] @ ?v1 # [?v2, ?v3, ?v1]"
    by (simp add: example_defs)
  have before0: "processVarbinds ?empty exampleRequest (Some 1) []
         (initialResponse exampleRequest (Some 1), exampleState\<lparr>world := 0\<rparr>)
       = (createResponse exampleRequest, exampleState)"
    by (simp add: example_defs processVarbinds_def initialResponse_def)
  have ceil0: "Ceil (oidTree ?empty) [1,3,6,1,2,1,1,1,0] = None"
    by simp
  have miss0: "case Ceil (oidTree ?empty) (getOid ?v1) of
      None \<Rightarrow> True
    | Some node \<Rightarrow> \<not> prefix (oid node) (getOid ?v1)"
    by simp
  have whole0: "processcommunityRequest ?empty exampleRequest exampleState
       = \<lparr>world = 0, handlerCalls = [],
          outboundFlowControlQueue =
            [\<lparr>pduType = pduType_RESPONSE, requestID = 42, errorVal = 0, errorIdx = 0,
              varbinds = [NoSuchObjectVarbind [1,3,6,1,2,1,1,1,0],
                          NoSuchObjectVarbind [1,3,6,1,2,1,1,3,0],
                          NoSuchObjectVarbind [1,3,6,1,2,1,1,2,0],
                          NoSuchObjectVarbind [1,3,6,1,2,1,1,1,0]]\<rparr>]\<rparr>"
    by (simp add: example_defs processcommunityRequest_def processVarbinds_def
        processVarbind_def lookupHandler_def initialResponse_def createResponse_def
        AddVarbind_def NewNoSuchObjectVarbind_def sendResponse_def)
  show ?thesis
    using start split before ceil np whole start0 ceil0 whole0
      lookup_miss_appends_NoSuchObject [OF start split before miss]
      lookup_miss_appends_NoSuchObject [OF start0 split0 before0 miss0]
    by (simp add: createResponse_def)
qed

text \<open>
  C8 at the example: the second varbind's handler fails; the response holds the answers
  to the first, third and fourth varbind.
\<close>

theorem handler_error_omits_varbind_witness:
  "StartTxn (txnProvider exampleAgent) (world exampleState) = (Some 1, 0)
   \<and> varbinds exampleRequest
       = [NullVarbind [1,3,6,1,2,1,1,1,0]] @ NullVarbind [1,3,6,1,2,1,1,3,0]
           # [NullVarbind [1,3,6,1,2,1,1,2,0], NullVarbind [1,3,6,1,2,1,1,1,0]]
   \<and> processVarbinds exampleAgent exampleRequest (Some 1) [NullVarbind [1,3,6,1,2,1,1,1,0]]
         (initialResponse exampleRequest (Some 1), exampleState\<lparr>world := 0\<rparr>)
       = ((createResponse exampleRequest)
            \<lparr>varbinds := [OctetStringVarbind [1,3,6,1,2,1,1,1,0] [104,101,108,108,111]]\<rparr>,
          \<lparr>world = 1, handlerCalls = [CalledGet [1,3,6,1,2,1,1,1,0]],
           outboundFlowControlQueue = []\<rparr>)
   \<and> lookupHandler exampleAgent (getOid (NullVarbind [1,3,6,1,2,1,1,3,0]))
       = Some \<lparr>oid = [1,3,6,1,2,1,1,3,0], isMulti = False, handler = failingHandler\<rparr>
   \<and> pduType exampleRequest = pduType_GET_REQUEST
   \<and> Get failingHandler [1,3,6,1,2,1,1,3,0] (Some 1) 1 = (Inl ''no such instance'', 2)
   \<and> processcommunityRequest exampleAgent exampleRequest exampleState
       = \<lparr>world = 3,
          handlerCalls = [CalledGet [1,3,6,1,2,1,1,1,0], CalledGet [1,3,6,1,2,1,1,3,0],
                          CalledGet [1,3,6,1,2,1,1,1,0]],
          outboundFlowControlQueue =
            [\<lparr>pduType = pduType_RESPONSE, requestID = 42, errorVal = 0, errorIdx = 0,
              varbinds = [OctetStringVarbind [1,3,6,1,2,1,1,1,0] [104,101,108,108,111],
                          NoSuchObjectVarbind [1,3,6,1,2,1,1,2,0],
                          OctetStringVarbind [1,3,6,1,2,1,1,1,0] [104,101,108,108,111]]\<rparr>]\<rparr>
   \<and> (\<exists>st2 resp3 st3.
         processVarbind exampleAgent exampleRequest (Some 1) (NullVarbind [1,3,6,1,2,1,1,3,0])
             ((createResponse exampleRequest)
                \<lparr>varbinds := [OctetStringVarbind [1,3,6,1,2,1,1,1,0] [104,101,108,108,111]]\<rparr>,
              \<lparr>world = 1, handlerCalls = [CalledGet [1,3,6,1,2,1,1,1,0]],
               outboundFlowControlQueue = []\<rparr>)
           = ((createResponse exampleRequest)
                \<lparr>varbinds := [OctetStringVarbind [1,3,6,1,2,1,1,1,0] [104,101,108,108,111]]\<rparr>,
              st2)
         \<and> world st2 = 2
         \<and> processVarbinds exampleAgent exampleRequest (Some 1)
              [NullVarbind [1,3,6,1,2,1,1,2,0], NullVarbind [1,3,6,1,2,1,1,1,0]]
              ((createResponse exampleRequest)
                \<lparr>varbinds := [OctetStringVarbind [1,3,6,1,2,1,1,1,0] [104,101,108,108,111]]\<rparr>,
               st2)
             = (resp3, st3)
         \<and> processcommunityRequest exampleAgent exampleRequest exampleState
             = sendResponse resp3 st3
         \<and> errorVal resp3 = errorVal (initialResponse exampleRequest (Some (1::nat)))
         \<and> errorIdx resp3 = errorIdx (initialResponse exampleRequest (Some (1::nat))))"
proof -
  let ?node = "\<lparr>oid = [1,3,6,1,2,1,1,3,0], isMulti = False, handler = failingHandler\<rparr>"
  let ?resp' = "(createResponse exampleRequest)
            \<lparr>varbinds := [OctetStringVarbind [1,3,6,1,2,1,1,1,0] [104,101,108,108,111]]\<rparr>"
  let ?st' = "\<lparr>world = 1::nat, handlerCalls = [CalledGet [1,3,6,1,2,1,1,1,0]],
           outboundFlowControlQueue = []\<rparr>"
  have start: "StartTxn (txnProvider exampleAgent) (world exampleState) = (Some 1, 0)"
    by (simp add: example_defs)
  have split: "varbinds exampleRequest
       = [NullVarbind [1,3,6,1,2,1,1,1,0]] @ NullVarbind [1,3,6,1,2,1,1,3,0]
           # [NullVarbind [1,3,6,1,2,1,1,2,0], NullVarbind [1,3,6,1,2,1,1,1,0]]"
    by (simp add: example_defs)
  have before: "processVarbinds exampleAgent exampleRequest (Some 1)
         [NullVarbind [1,3,6,1,2,1,1,1,0]]
         (initialResponse exampleRequest (Some 1), exampleState\<lparr>world := 0\<rparr>)
       = (?resp', ?st')"
    by (simp add: example_defs processVarbinds_def processVarbind_def lookupHandler_def
        initialResponse_def createResponse_def AddVarbind_def)
  have hit: "lookupHandler exampleAgent (getOid (NullVarbind [1,3,6,1,2,1,1,3,0])) = Some ?node"
    by (simp add: example_defs lookupHandler_def)
  have get: "Get failingHandler [1,3,6,1,2,1,1,3,0] (Some 1) 1 = (Inl ''no such instance'', 2)"
    by (simp add: failingHandler_def)
  have pt: "pduType exampleRequest = pduType_GET_REQUEST"
    by (simp add: exampleRequest_def)
  have err: "pduType exampleRequest = pduType_GET_REQUEST
                \<and> Get (handler ?node) (getOid (NullVarbind [1,3,6,1,2,1,1,3,0])) (Some 1)
                    (world ?st') = (Inl ''no such instance'', 2)
              \<or> pduType exampleRequest = pduType_SET_REQUEST
                \<and> Set (handler ?node) (NullVarbind [1,3,6,1,2,1,1,3,0]) (Some 1) (world ?st')
                    = (Inl ''no such instance'', 2)"
    using get pt by simp
  have whole: "processcommunityRequest exampleAgent exampleRequest exampleState
       = \<lparr>world = 3,
          handlerCalls = [CalledGet [1,3,6,1,2,1,1,1,0], CalledGet [1,3,6,1,2,1,1,3,0],
                          CalledGet [1,3,6,1,2,1,1,1,0]],
          outboundFlowControlQueue =
            [\<lparr>pduType = pduType_RESPONSE, requestID = 42, errorVal = 0, errorIdx = 0,
              varbinds = [OctetStringVarbind [1,3,6,1,2,1,1,1,0] [104,101,108,108,111],
                          NoSuchObjectVarbind [1,3,6,1,2,1,1,2,0],
                          OctetStringVarbind [1,3,6,1,2,1,1,1,0] [104,101,108,108,111]]\<rparr>]\<rparr>"
    by (simp add: example_defs processcommunityRequest_def processVarbinds_def
        processVarbind_def lookupHandler_def initialResponse_def createResponse_def
        AddVarbind_def NewNoSuchObjectVarbind_def sendResponse_def)
  show ?thesis
    using start split before hit pt get whole
      handler_error_omits_varbind [OF start split before hit err]
    by simp
qed

section \<open>Stats tracker (snmp.go)\<close>

text \<open>
  snmp.go holds two variants of the context. They agree on the stats tracker but for the
  shift loop of the rollover: the first variant (line 246) starts it at
  \<^verbatim>\<open>len(fifteenMinuteBins)\<close>, the second (line 815) at
  \<^verbatim>\<open>len(fifteenMinuteBins) - 1\<close>. The stat kinds are those of the second variant.
\<close>

datatype StatType =
    StatType_INBOUND_CONNECTION_DEATH
  | StatType_INBOUND_CONNECTION_CLOSE
  | StatType_OUTBOUND_CONNECTION_DEATH
  | StatType_OUTBOUND_CONNECTION_CLOSE
  | StatType_INBOUND_MESSAGES_RECEIVED
  | StatType_INBOUND_MESSAGES_UNDECODABLE
  | StatType_OUTBOUND_MESSAGES_SENT
  | StatType_RESPONSES_RELEASED_TO_CLIENT
  | StatType_RESPONSES_DROPPED_BY_REQUEST_TRACKER
  | StatType_REQUESTS_SENT
  | StatType_REQUESTS_FORWARDED_TO_FLOW_CONTROL
  | StatType_UNKNOWN_REQUESTS_TIMED_OUT
  | StatType_REQUESTS_TIMED_OUT
  | StatType_REQUEST_RETRIES_EXHAUSTED
  | StatType_GET_REQUESTS_RECEIVED
  | StatType_GET_NEXT_REQUESTS_RECEIVED
  | StatType_GET_BULK_REQUESTS_RECEIVED
  | StatType_SET_REQUESTS_RECEIVED
  | StatType_RESPONSES_RECEIVED
  | StatType_V1_TRAPS_RECEIVED
  | StatType_V2_TRAPS_RECEIVED
  | StatType_COMMUNITY_REQUEST_RECEIVED_WITH_NO_REQUEST_PROCESSOR

text \<open>
  A bin: a Go map, which may be nil, and the seconds counted. \<open>mapIndex\<close> is Go's
  \<^verbatim>\<open>m[k]\<close>: 0 for a missing key and for a nil map. \<open>copy\<close> is the method
  \<^verbatim>\<open>copy\<close> of the bin.
\<close>

record StatsBin =
  Stats :: "(StatType \<rightharpoonup> int) option"
  NumSeconds :: int

definition newStatsBin :: StatsBin where
  "newStatsBin = \<lparr>Stats = Some Map.empty, NumSeconds = 0\<rparr>"

definition mapIndex :: "(StatType \<rightharpoonup> int) option \<Rightarrow> StatType \<Rightarrow> int" where
  "mapIndex m k = (case m of None \<Rightarrow> 0 | Some f \<Rightarrow> (case f k of None \<Rightarrow> 0 | Some v \<Rightarrow> v))"

definition copy :: "StatsBin \<Rightarrow> StatsBin" where
  "copy bin =
     \<lparr>Stats = Some (case Stats bin of None \<Rightarrow> Map.empty | Some f \<Rightarrow> f),
      NumSeconds = NumSeconds bin\<rparr>"

text \<open>
  The ways the tracker goroutine stops serving: a run-time panic (index out of range,
  nil dereference, assignment to a nil map), which ends the program, or a second send on
  the unbuffered response channel, which nobody receives.
\<close>

datatype trackerFault = IndexOutOfRange | NilDereference | NilMapAssignment | BlockedOnSend

text \<open>
  The locals of \<^verbatim>\<open>trackStats\<close>: 97 bin pointers, all nil but the first, and the
  seconds until the next rollover, read from the clock at start.
\<close>

record statsTracker =
  fifteenMinuteBins :: "StatsBin option list"
  nextRollover :: int

definition trackStats_init :: "int \<Rightarrow> statsTracker" where
  "trackStats_init sinceBoundary =
     \<lparr>fifteenMinuteBins = (replicate 97 None)[0 := Some newStatsBin],
      nextRollover = sinceBoundary\<rparr>"

text \<open>Go's \<^verbatim>\<open>bins[i]\<close> followed by a dereference: each can panic.\<close>

definition binAt :: "StatsBin option list \<Rightarrow> nat \<Rightarrow> trackerFault + StatsBin" where
  "binAt bins i =
     (if i < length bins
      then (case bins ! i of None \<Rightarrow> Inl NilDereference | Some b \<Rightarrow> Inr b)
      else Inl IndexOutOfRange)"

text \<open>The \<^verbatim>\<open>statIncrementNotifications\<close> case of the select.\<close>

definition trackStats_increment :: "statsTracker \<Rightarrow> StatType \<Rightarrow> trackerFault + statsTracker" where
  "trackStats_increment tr statType =
     (case binAt (fifteenMinuteBins tr) 0 of
        Inl f \<Rightarrow> Inl f
      | Inr b \<Rightarrow>
         (case Stats b of
            None \<Rightarrow> Inl NilMapAssignment
          | Some m \<Rightarrow>
              Inr (tr\<lparr>fifteenMinuteBins :=
                    (fifteenMinuteBins tr)
                      [0 := Some (b\<lparr>Stats := Some (m(statType \<mapsto> mapIndex (Some m) statType + 1))\<rparr>)]\<rparr>)))"

text \<open>
  The \<^verbatim>\<open>statRequests\<close> case of the select, the same in both variants. It returns the
  values sent on the response channel and the tracker afterwards. Neither \<^verbatim>\<open>if\<close>
  that sends nil returns or continues, so the code goes on to index the slice.
  \<^verbatim>\<open>GetStat\<close> and \<^verbatim>\<open>GetStatsBin\<close> receive one value; a second send blocks the
  tracker for good.
\<close>

record snmpContextStatRequest =
  allStats :: bool
  singleStat :: StatType
  bin :: "8 word"

datatype statResponse = RespNil | RespInt int | RespBin StatsBin

definition trackStats_request ::
  "statsTracker \<Rightarrow> snmpContextStatRequest \<Rightarrow> statResponse list \<times> (trackerFault + statsTracker)" where
  "trackStats_request tr req =
     (let bins = fifteenMinuteBins tr;
          sent1 = (if of_nat (length bins) \<le> bin req then [RespNil] else [])
      in case binAt bins (unat (bin req)) of
           Inl f \<Rightarrow> (sent1, Inl f)
         | Inr statsBin \<Rightarrow>
            (let sent2 = sent1 @ (if Stats statsBin = None then [RespNil] else []);
                 sent3 = sent2 @ (if allStats req then [RespBin (copy statsBin)]
                                  else [RespInt (mapIndex (Stats statsBin) (singleStat req))])
             in if 1 < length sent3 then (take 1 sent3, Inl BlockedOnSend)
                else (sent3, Inr tr)))"

text \<open>
  The \<^verbatim>\<open>ticker.C\<close> case of the select. \<open>shiftBins idx\<close> is the loop
  \<^verbatim>\<open>for ; idx > 0; idx-- { bins[idx] = bins[idx-1] }\<close>, every index checked as Go
  checks it; \<open>firstIdx\<close> is the loop's start, the one place where the variants differ.
\<close>

fun shiftBins :: "nat \<Rightarrow> StatsBin option list \<Rightarrow> trackerFault + StatsBin option list" where
  "shiftBins 0 bins = Inr bins"
| "shiftBins (Suc i) bins =
     (if Suc i < length bins then shiftBins i (bins[Suc i := bins ! i])
      else Inl IndexOutOfRange)"

definition trackStats_tick ::
  "(StatsBin option list \<Rightarrow> nat) \<Rightarrow> statsTracker \<Rightarrow> trackerFault + statsTracker" where
  "trackStats_tick firstIdx tr =
     (case binAt (fifteenMinuteBins tr) 0 of
        Inl f \<Rightarrow> Inl f
      | Inr b \<Rightarrow>
         (let bins = (fifteenMinuteBins tr)[0 := Some (b\<lparr>NumSeconds := NumSeconds b + 1\<rparr>)]
          in if NumSeconds b + 1 = nextRollover tr
             then (case shiftBins (firstIdx bins) bins of
                     Inl f \<Rightarrow> Inl f
                   | Inr bins' \<Rightarrow>
                       Inr \<lparr>fifteenMinuteBins = bins'[0 := Some newStatsBin],
                            nextRollover = 900\<rparr>)
             else Inr (tr\<lparr>fifteenMinuteBins := bins\<rparr>)))"

definition trackStats_tick_v1 :: "statsTracker \<Rightarrow> trackerFault + statsTracker" where
  "trackStats_tick_v1 = trackStats_tick (\<lambda>bins. length bins)"

definition trackStats_tick_v2 :: "statsTracker \<Rightarrow> trackerFault + statsTracker" where
  "trackStats_tick_v2 = trackStats_tick (\<lambda>bins. length bins - 1)"

text \<open>
  \<^verbatim>\<open>GetStat\<close> and \<^verbatim>\<open>GetStatsBin\<close>: the caller's result (\<open>None\<close> when the tracker
  died before answering, so that the caller waits for ever) and the tracker afterwards.
\<close>

datatype statError = BinNotAvailable "8 word" | InternalError

definition GetStat ::
  "statsTracker \<Rightarrow> StatType \<Rightarrow> 8 word
   \<Rightarrow> (statError + int) option \<times> (trackerFault + statsTracker)" where
  "GetStat tr statType b =
     (case trackStats_request tr \<lparr>allStats = False, singleStat = statType, bin = b\<rparr> of
        (sent, after) \<Rightarrow>
          ((case sent of
              [] \<Rightarrow> None
            | RespNil # _ \<Rightarrow> Some (Inl (BinNotAvailable b))
            | RespInt statVal # _ \<Rightarrow> Some (Inr statVal)
            | RespBin _ # _ \<Rightarrow> Some (Inl InternalError)), after))"

definition GetStatsBin ::
  "statsTracker \<Rightarrow> 8 word \<Rightarrow> (statError + StatsBin) option \<times> (trackerFault + statsTracker)" where
  "GetStatsBin tr b =
     (case trackStats_request tr \<lparr>allStats = True, singleStat = StatType_INBOUND_CONNECTION_DEATH, bin = b\<rparr> of
        (sent, after) \<Rightarrow>
          ((case sent of
              [] \<Rightarrow> None
            | RespNil # _ \<Rightarrow> Some (Inl (BinNotAvailable b))
            | RespInt _ # _ \<Rightarrow> Some (Inl InternalError)
            | RespBin stats # _ \<Rightarrow> Some (Inr stats)), after))"

subsection \<open>The rollover\<close>

text \<open>
  A shift that starts inside the slice ends without a fault: slots 1 to \<open>i\<close> receive
  the contents of slots 0 to \<open>i - 1\<close>, the other slots stay.
\<close>

lemma shiftBins_in_range:
  "i < length bins \<Longrightarrow>
   shiftBins i bins = Inr (bins ! 0 # take i bins @ drop (Suc i) bins)"
proof (induction i arbitrary: bins)
  case 0
  then show ?case
    by (cases bins) simp_all
next
  case (Suc i)
  let ?bins' = "bins[Suc i := bins ! i]"
  have i: "i < length ?bins'"
    using Suc.prems by simp
  have "shiftBins (Suc i) bins = shiftBins i ?bins'"
    using Suc.prems by simp
  also have "\<dots> = Inr (?bins' ! 0 # take i ?bins' @ drop (Suc i) ?bins')"
    by (rule Suc.IH [OF i])
  also have "?bins' ! 0 = bins ! 0"
    by simp
  also have "take i ?bins' = take i bins"
    by simp
  also have "drop (Suc i) ?bins' = bins ! i # drop (Suc (Suc i)) bins"
    using Suc.prems by (simp add: drop_update_swap Cons_nth_drop_Suc [symmetric] del: drop_Suc_Cons) 
  finally show ?case
    using Suc.prems by (simp add: take_Suc_conv_app_nth)
qed


text \<open>
  The second variant does what C4 says: when the live bin's seconds reach
  \<open>nextRollover\<close>, slot 0 is a fresh bin, slot 1 the bin that was live, slots 2 to 96
  the former slots 1 to 95, the former slot 96 is gone, and \<open>nextRollover\<close> is 900.
\<close>

lemma trackStats_tick_v2_rollover:
  assumes len: "length (fifteenMinuteBins tr) = 97"
    and live: "fifteenMinuteBins tr ! 0 = Some b"
    and due: "NumSeconds b + 1 = nextRollover tr"
  shows "trackStats_tick_v2 tr
         = Inr \<lparr>fifteenMinuteBins =
                  Some newStatsBin # Some (b\<lparr>NumSeconds := NumSeconds b + 1\<rparr>)
                    # take 95 (tl (fifteenMinuteBins tr)),
                nextRollover = 900\<rparr>"
proof -
  let ?b' = "b\<lparr>NumSeconds := NumSeconds b + 1\<rparr>"
  let ?bins = "(fifteenMinuteBins tr)[0 := Some ?b']"
  obtain x xs where bins: "fifteenMinuteBins tr = x # xs"
    using len by (cases "fifteenMinuteBins tr") simp_all
  have xs: "length xs = 96"
    using len bins by simp
  have at0: "binAt (fifteenMinuteBins tr) 0 = Inr b"
    using len live by (simp add: binAt_def)
  have "shiftBins 96 ?bins = Inr (?bins ! 0 # take 96 ?bins @ drop (Suc 96) ?bins)"
    by (rule shiftBins_in_range) (simp add: len)
  then have shift: "shiftBins 96 ?bins = Inr (Some ?b' # Some ?b' # take 95 xs)"
    using xs by (simp add: bins)
  have "trackStats_tick_v2 tr
        = Inr \<lparr>fifteenMinuteBins = (Some ?b' # Some ?b' # take 95 xs)[0 := Some newStatsBin],
               nextRollover = 900\<rparr>"
    by (simp add: trackStats_tick_v2_def trackStats_tick_def at0 shift Let_def len due [symmetric])
  then show ?thesis
    by (simp add: bins)
qed

text \<open>The same in the words of the claim: slot by slot.\<close>

lemma trackStats_tick_v2_slots:
  assumes len: "length (fifteenMinuteBins tr) = 97"
    and live: "fifteenMinuteBins tr ! 0 = Some b"
    and due: "NumSeconds b + 1 = nextRollover tr"
  shows "\<exists>tr'. trackStats_tick_v2 tr = Inr tr'
           \<and> length (fifteenMinuteBins tr') = 97
           \<and> fifteenMinuteBins tr' ! 0 = Some newStatsBin
           \<and> fifteenMinuteBins tr' ! 1 = Some (b\<lparr>NumSeconds := NumSeconds b + 1\<rparr>)
           \<and> (\<forall>i. 2 \<le> i \<and> i \<le> 96 \<longrightarrow>
                  fifteenMinuteBins tr' ! i = fifteenMinuteBins tr ! (i - 1))
           \<and> nextRollover tr' = 900"
proof -
  let ?tr' = "\<lparr>fifteenMinuteBins =
                  Some newStatsBin # Some (b\<lparr>NumSeconds := NumSeconds b + 1\<rparr>)
                    # take 95 (tl (fifteenMinuteBins tr)),
                nextRollover = 900\<rparr>"
  have t: "trackStats_tick_v2 tr = Inr ?tr'"
    using assms by (rule trackStats_tick_v2_rollover)
  have "fifteenMinuteBins ?tr' ! i = fifteenMinuteBins tr ! (i - 1)" if i2: "2 \<le> i" and i96: "i \<le> 96"
    for i
  proof -
    obtain j where i: "i = Suc (Suc j)"
      using i2 by (cases i; cases "i - 1") simp_all
    have j: "j < 95"
      using i96 i by simp
    have "fifteenMinuteBins ?tr' ! i = take 95 (tl (fifteenMinuteBins tr)) ! j"
      by (simp add: i)
    also have "\<dots> = tl (fifteenMinuteBins tr) ! j"
      using j by simp
    also have "\<dots> = fifteenMinuteBins tr ! Suc j"
      using j len by (simp add: nth_tl)
    finally show ?thesis
      by (simp add: i)
  qed
  then have slots: "\<forall>i. 2 \<le> i \<and> i \<le> 96 \<longrightarrow>
      fifteenMinuteBins ?tr' ! i = fifteenMinuteBins tr ! (i - 1)"
    by blast
  have l: "length (fifteenMinuteBins ?tr') = 97"
    using len by simp
  have z: "fifteenMinuteBins ?tr' ! 0 = Some newStatsBin"
    by simp
  have o: "fifteenMinuteBins ?tr' ! 1 = Some (b\<lparr>NumSeconds := NumSeconds b + 1\<rparr>)"
    by simp
  have n: "nextRollover ?tr' = 900"
    by simp
  show ?thesis
    by (intro exI [of _ ?tr'] conjI) (rule t l z o slots n)+
qed

text \<open>The first variant panics at every rollover: its first access is to index 97.\<close>

lemma trackStats_tick_v1_rollover:
  assumes len: "length (fifteenMinuteBins tr) = 97"
    and live: "fifteenMinuteBins tr ! 0 = Some b"
    and due: "NumSeconds b + 1 = nextRollover tr"
  shows "trackStats_tick_v1 tr = Inl IndexOutOfRange"
proof -
  have at0: "binAt (fifteenMinuteBins tr) 0 = Inr b"
    using len live by (simp add: binAt_def)
  have "shiftBins 97 bins = Inl IndexOutOfRange" if l: "length bins = 97"
    for bins :: "StatsBin option list"
  proof -
    have "shiftBins (Suc 96) bins = Inl IndexOutOfRange"
      by (subst shiftBins.simps) (simp add: l)
    then show ?thesis by simp
  qed
  then show ?thesis
    by (simp add: trackStats_tick_v1_def trackStats_tick_def at0 Let_def len due [symmetric])
qed

text \<open>
  C4 fails on the first variant of the code. A tracker started one second after a
  15-minute boundary reaches its rollover at the first tick; the shift loop of snmp.go
  line 246 then indexes the 97-slot ring at 97.
\<close>

theorem rollover_v1_out_of_range:
  "trackStats_tick_v1 (trackStats_init 1) = Inl IndexOutOfRange
   \<and> length (fifteenMinuteBins (trackStats_init 1)) = 97"
  using trackStats_tick_v1_rollover [of "trackStats_init 1" newStatsBin]
  by (simp add: trackStats_init_def newStatsBin_def)

subsection \<open>Queries beyond the ring\<close>

text \<open>
  A request for a bin of index 97 or more makes the tracker send nil and then index the
  slice out of range.
\<close>

lemma trackStats_request_unavailable:
  assumes len: "length (fifteenMinuteBins tr) = 97" and b: "97 \<le> unat (bin req)"
  shows "trackStats_request tr req = ([RespNil], Inl IndexOutOfRange)"
proof -
  have "(of_nat 97 :: 8 word) \<le> bin req"
    using b by (simp add: word_le_nat_alt)
  moreover have "binAt (fifteenMinuteBins tr) (unat (bin req)) = Inl IndexOutOfRange"
    using b len by (simp add: binAt_def)
  ultimately show ?thesis
    by (simp add: trackStats_request_def len Let_def)
qed

text \<open>
  C5 fails on the code. \<^verbatim>\<open>GetStat\<close> and \<^verbatim>\<open>GetStatsBin\<close> for bin 97 on a fresh
  tracker get the answer "bin not available", as claimed, but the tracker does not
  survive the query: it panics with an index out of range.
\<close>

theorem stat_request_beyond_ring_kills_tracker:
  "GetStat (trackStats_init 1) StatType_REQUESTS_SENT 97
     = (Some (Inl (BinNotAvailable 97)), Inl IndexOutOfRange)
   \<and> fst (GetStatsBin (trackStats_init 1) 97) = Some (Inl (BinNotAvailable 97))
   \<and> snd (GetStatsBin (trackStats_init 1) 97) = Inl IndexOutOfRange"
proof -
  have len: "length (fifteenMinuteBins (trackStats_init 1)) = 97"
    by (simp add: trackStats_init_def)
  have "trackStats_request (trackStats_init 1) req = ([RespNil], Inl IndexOutOfRange)"
    if "bin req = 97" for req
    using trackStats_request_unavailable [OF len, of req] that by simp
  then show ?thesis
    by (simp add: GetStat_def GetStatsBin_def)
qed

section \<open>Request tracker (snmp.go)\<close>

text \<open>
  The \<^verbatim>\<open>SnmpRequest\<close> interface is missing from the sources. The methods that
  \<^verbatim>\<open>trackRequests\<close> calls and that bear on the request are taken as parameters;
  \<^verbatim>\<open>isRetryRequired\<close> may change the request it is asked about. Timers are left out.
\<close>

record 'r requestOps =
  setRequestId :: "32 word \<Rightarrow> 'r \<Rightarrow> 'r"
  getRequestId :: "'r \<Rightarrow> 32 word"
  isRetryRequired :: "'r \<Rightarrow> bool \<times> 'r"
  setTransportError :: "'r \<Rightarrow> 'r"
  setResponse :: "'r \<Rightarrow> 'r"

text \<open>
  The state that \<^verbatim>\<open>sendRequest\<close> and \<^verbatim>\<open>trackRequests\<close> share or own:
  \<open>requestsFromClients\<close> is the buffered channel of capacity \<open>maxTargets\<close>,
  \<open>sendersInFlight\<close> counts the calls of \<^verbatim>\<open>sendRequest\<close> that have incremented
  \<^verbatim>\<open>REQUESTS_SENT\<close> and not yet put their request on the channel, \<open>statCalls k\<close> is
  the number of \<^verbatim>\<open>incrementStat(k)\<close> calls made so far, and \<open>notified\<close> lists the
  requests handed back to their waiters. A send on the outbound queue is modelled where it
  completes. With \<open>maxTargets = 0\<close> the channel is unbuffered and hands a request over
  only when the tracker receives it; the steps below describe the buffered channel of a
  context with \<open>maxTargets\<close> of 1 or more.
\<close>

record 'r requestTracker =
  maxTargets :: nat
  nextRequestId :: "32 word"
  outstandingRequests :: "32 word \<rightharpoonup> 'r"
  sendersInFlight :: nat
  requestsFromClients :: "'r list"
  outboundQueue :: "'r list"
  notified :: "'r list"
  statCalls :: "StatType \<Rightarrow> nat"
  trackerReturned :: bool

definition incrementStat :: "StatType \<Rightarrow> 'r requestTracker \<Rightarrow> 'r requestTracker" where
  "incrementStat statType s = s\<lparr>statCalls := (statCalls s)(statType := statCalls s statType + 1)\<rparr>"

definition startRequestTracker :: "nat \<Rightarrow> 'r requestTracker" where
  "startRequestTracker n =
     \<lparr>maxTargets = n, nextRequestId = 0, outstandingRequests = Map.empty, sendersInFlight = 0,
      requestsFromClients = [], outboundQueue = [], notified = [],
      statCalls = (\<lambda>_. 0), trackerReturned = False\<rparr>"

text \<open>
  The steps: the two statements of \<^verbatim>\<open>sendRequest\<close>, which run in the client's
  goroutine, and one case of the tracker's select each, with what the channel delivered.
  A step that cannot be taken (full channel, empty channel, tracker gone) is \<open>None\<close>.
\<close>

datatype 'r trackerEvent =
    SendRequestIncrement
  | SendRequestEnqueue 'r
  | FromClients
  | FromAgents "32 word"
  | RequestTimeout "32 word"
  | InternalShutdown

fun trackRequests ::
  "'r requestOps \<Rightarrow> 'r requestTracker \<Rightarrow> 'r trackerEvent \<Rightarrow> 'r requestTracker option" where
  "trackRequests ops s SendRequestIncrement =
     Some ((incrementStat StatType_REQUESTS_SENT s)\<lparr>sendersInFlight := sendersInFlight s + 1\<rparr>)"
| "trackRequests ops s (SendRequestEnqueue req) =
     (if 0 < sendersInFlight s \<and> length (requestsFromClients s) < maxTargets s
      then Some (s\<lparr>sendersInFlight := sendersInFlight s - 1,
                   requestsFromClients := requestsFromClients s @ [req]\<rparr>)
      else None)"
| "trackRequests ops s FromClients =
     (if trackerReturned s then None
      else (case requestsFromClients s of
              [] \<Rightarrow> None
            | outboundReq # waiting \<Rightarrow>
               (let nextId = nextRequestId s + 1;
                    outboundReq' = setRequestId ops nextId outboundReq;
                    s1 = s\<lparr>requestsFromClients := waiting, nextRequestId := nextId,
                           outstandingRequests := (outstandingRequests s)(nextId \<mapsto> outboundReq')\<rparr>;
                    s2 = incrementStat StatType_REQUESTS_FORWARDED_TO_FLOW_CONTROL s1
                in Some (s2\<lparr>outboundQueue := outboundQueue s2 @ [outboundReq']\<rparr>))))"
| "trackRequests ops s (FromAgents responseId) =
     (if trackerReturned s then None
      else (case outstandingRequests s responseId of
              None \<Rightarrow> Some (incrementStat StatType_RESPONSES_DROPPED_BY_REQUEST_TRACKER s)
            | Some originatingRequest \<Rightarrow>
               (let s1 = s\<lparr>outstandingRequests :=
                            (outstandingRequests s)(getRequestId ops originatingRequest := None)\<rparr>;
                    answered = setResponse ops originatingRequest;
                    s2 = incrementStat StatType_RESPONSES_RELEASED_TO_CLIENT s1
                in Some (s2\<lparr>notified := notified s2 @ [answered]\<rparr>))))"
| "trackRequests ops s (RequestTimeout requestId) =
     (if trackerReturned s then None
      else (case outstandingRequests s requestId of
              None \<Rightarrow> Some (incrementStat StatType_UNKNOWN_REQUESTS_TIMED_OUT s)
            | Some timedoutRequest \<Rightarrow>
               (case isRetryRequired ops timedoutRequest of
                  (True, timedoutRequest') \<Rightarrow>
                    (let s1 = s\<lparr>outstandingRequests :=
                                 (outstandingRequests s)(requestId \<mapsto> timedoutRequest')\<rparr>;
                         s2 = incrementStat StatType_REQUESTS_TIMED_OUT s1;
                         s3 = incrementStat StatType_REQUESTS_FORWARDED_TO_FLOW_CONTROL s2
                     in Some (s3\<lparr>outboundQueue := outboundQueue s3 @ [timedoutRequest']\<rparr>))
                | (False, timedoutRequest') \<Rightarrow>
                    (let s1 = s\<lparr>outstandingRequests :=
                                 (outstandingRequests s)(getRequestId ops timedoutRequest' := None)\<rparr>;
                         failed = setTransportError ops timedoutRequest';
                         s2 = incrementStat StatType_REQUEST_RETRIES_EXHAUSTED s1
                     in Some (s2\<lparr>notified := notified s2 @ [failed]\<rparr>)))))"
| "trackRequests ops s InternalShutdown =
     (if trackerReturned s then None else Some (s\<lparr>trackerReturned := True\<rparr>))"

text \<open>A run is a sequence of steps from the state \<^verbatim>\<open>startRequestTracker\<close> sets up.\<close>

fun runTracker ::
  "'r requestOps \<Rightarrow> 'r requestTracker \<Rightarrow> 'r trackerEvent list \<Rightarrow> 'r requestTracker option" where
  "runTracker ops s [] = Some s"
| "runTracker ops s (ev # evs) =
     (case trackRequests ops s ev of
        None \<Rightarrow> None
      | Some s' \<Rightarrow> runTracker ops s' evs)"

text \<open>
  The three counts of C9, and the submissions that \<^verbatim>\<open>sendRequest\<close> has counted and
  the tracker has not yet taken from \<open>requestsFromClients\<close>.
\<close>

definition forwarded :: "'r requestTracker \<Rightarrow> nat" where
  "forwarded s = statCalls s StatType_REQUESTS_FORWARDED_TO_FLOW_CONTROL"

definition sent :: "'r requestTracker \<Rightarrow> nat" where
  "sent s = statCalls s StatType_REQUESTS_SENT"

definition timedOut :: "'r requestTracker \<Rightarrow> nat" where
  "timedOut s = statCalls s StatType_REQUESTS_TIMED_OUT"

definition notYetForwarded :: "'r requestTracker \<Rightarrow> nat" where
  "notYetForwarded s = sendersInFlight s + length (requestsFromClients s)"

lemmas count_defs = forwarded_def sent_def timedOut_def notYetForwarded_def incrementStat_def

lemma trackRequests_balance:
  assumes "trackRequests ops s ev = Some s'"
    and "forwarded s + notYetForwarded s = sent s + timedOut s"
  shows "forwarded s' + notYetForwarded s' = sent s' + timedOut s'"
proof (cases ev)
  case SendRequestIncrement
  then show ?thesis
    using assms by (auto simp: count_defs)
next
  case (SendRequestEnqueue req)
  then show ?thesis
    using assms by (auto simp: count_defs split: if_splits)
next
  case FromClients
  then show ?thesis
    using assms by (auto simp: count_defs Let_def split: if_splits list.splits)
next
  case (FromAgents responseId)
  then show ?thesis
    using assms by (auto simp: count_defs Let_def split: if_splits option.splits)
next
  case (RequestTimeout requestId)
  then show ?thesis
    using assms by (auto simp: count_defs Let_def split: if_splits option.splits prod.splits bool.splits)
next
  case InternalShutdown
  then show ?thesis
    using assms by (auto simp: count_defs split: if_splits)
qed

text \<open>
  C9 (as amended). At every point of every run, the count of
  \<^verbatim>\<open>REQUESTS_FORWARDED_TO_FLOW_CONTROL\<close> plus the number of submissions not yet taken
  by the tracker equals the count of \<^verbatim>\<open>REQUESTS_SENT\<close> plus the count of
  \<^verbatim>\<open>REQUESTS_TIMED_OUT\<close>.
\<close>

theorem forwarded_balance:
  assumes "runTracker ops (startRequestTracker n) evs = Some s"
  shows "forwarded s + notYetForwarded s = sent s + timedOut s"
proof -
  have "runTracker ops s0 evs = Some s \<Longrightarrow>
        forwarded s0 + notYetForwarded s0 = sent s0 + timedOut s0 \<Longrightarrow>
        forwarded s + notYetForwarded s = sent s + timedOut s" for s0
  proof (induction evs arbitrary: s0)
    case Nil
    then show ?case by simp
  next
    case (Cons ev evs)
    then obtain s1 where s1: "trackRequests ops s0 ev = Some s1"
        "runTracker ops s1 evs = Some s"
      by (auto split: option.splits)
    show ?case
      using Cons.IH [OF s1(2)] trackRequests_balance [OF s1(1) Cons.prems(2)] .
  qed
  moreover have "forwarded (startRequestTracker n) + notYetForwarded (startRequestTracker n)
      = sent (startRequestTracker n) + timedOut (startRequestTracker n :: 'a requestTracker)"
    by (simp add: count_defs startRequestTracker_def)
  ultimately show ?thesis
    using assms by blast
qed

subsection \<open>A request type to run the tracker with\<close>

text \<open>
  A request that holds its id, the retries left and its outcome; a retry is required
  while retries are left.
\<close>

record retryRequest =
  exId :: "32 word"
  exRetries :: nat
  exOutcome :: string

definition exampleOps :: "retryRequest requestOps" where
  "exampleOps =
     \<lparr>setRequestId = (\<lambda>i r. r\<lparr>exId := i\<rparr>),
      getRequestId = exId,
      isRetryRequired = (\<lambda>r. (0 < exRetries r, r\<lparr>exRetries := exRetries r - 1\<rparr>)),
      setTransportError = (\<lambda>r. r\<lparr>exOutcome := ''Timed out''\<rparr>),
      setResponse = (\<lambda>r. r\<lparr>exOutcome := ''response''\<rparr>)\<rparr>"

definition counts :: "'r requestTracker option \<Rightarrow> (nat \<times> nat \<times> nat \<times> nat) option" where
  "counts r = map_option (\<lambda>s. (forwarded s, sent s, timedOut s, notYetForwarded s)) r"

definition aRequest :: retryRequest where
  "aRequest = \<lparr>exId = 0, exRetries = 2, exOutcome = []\<rparr>"

definition retryRun :: "retryRequest trackerEvent list" where
  "retryRun =
     [SendRequestIncrement, SendRequestEnqueue aRequest, FromClients, RequestTimeout 1,
      RequestTimeout 1, SendRequestIncrement, RequestTimeout 1]"

text \<open>
  C9 (as amended) on a run with one request that times out three times (two retries,
  then exhaustion) and a second submission that has not reached the channel.
\<close>

theorem forwarded_balance_witness:
  "counts (runTracker exampleOps (startRequestTracker 4) retryRun) = Some (3, 2, 2, 1)
   \<and> (3::nat) + 1 = 2 + 2"
proof -
  obtain s where r: "runTracker exampleOps (startRequestTracker 4) retryRun = Some s"
    by (simp add: retryRun_def startRequestTracker_def exampleOps_def aRequest_def
        incrementStat_def Let_def)
  have c: "forwarded s = 3" "sent s = 2" "timedOut s = 2"
    using r
    by (auto simp: retryRun_def startRequestTracker_def exampleOps_def aRequest_def
        count_defs Let_def)
  have "notYetForwarded s = 1"
    using forwarded_balance [OF r] c by simp
  then show ?thesis
    using r c by (simp add: counts_def)
qed

text \<open>
  C9 as stated fails: a request is submitted and the context shuts down before the
  tracker takes it. The run ends with one \<^verbatim>\<open>REQUESTS_SENT\<close>, no
  \<^verbatim>\<open>REQUESTS_FORWARDED_TO_FLOW_CONTROL\<close> and no \<^verbatim>\<open>REQUESTS_TIMED_OUT\<close>.
\<close>

theorem forwarded_equals_sent_plus_timed_out_counterexample:
  "counts (runTracker exampleOps (startRequestTracker 4)
             [SendRequestIncrement, SendRequestEnqueue aRequest, InternalShutdown])
     = Some (0, 1, 0, 1)
   \<and> (0::nat) \<noteq> 1 + 0"
  by (simp add: counts_def startRequestTracker_def exampleOps_def aRequest_def count_defs)

section \<open>Supervisor and shutdown (snmp.go)\<close>

text \<open>
  \<^verbatim>\<open>monitor\<close> differs between the two variants of snmp.go in the
  \<^verbatim>\<open>restartTimer\<close> case only: the first variant (lines 144 to 149) starts the
  receiver and the transmitter there, the second (lines 657 and 658) only clears the timer.
  The second variant's \<^verbatim>\<open>startRxAndTx\<close> is called by \<^verbatim>\<open>initContext\<close> alone.
\<close>

datatype variant = V1 | V2

datatype monitorAction = ListenUDP int | SpawnListen | SpawnProcessOutboundQueue

text \<open>
  The locals of \<^verbatim>\<open>monitor\<close> (\<open>shuttingDown\<close>, \<open>lastRestartAttempt\<close>,
  \<open>restartTimer\<close>) and the fields of the context it reads and writes. Time is in
  whole seconds, the zero time being 0. A channel field is \<open>True\<close> while it holds a
  channel and \<open>False\<close> when it is nil. The ghost fields count what has been done:
  \<open>externalCloses\<close> the closes of \<^verbatim>\<open>externalShutdownNotification\<close>, \<open>nilCloses\<close>
  the closes of a nil channel, \<open>connCloses\<close> the calls of \<^verbatim>\<open>conn.Close\<close> in the
  shutdown case, \<open>internalCloses\<close> and \<open>completeCloses\<close> the closes of
  \<^verbatim>\<open>internalShutdownNotification\<close> and \<^verbatim>\<open>shutDownComplete\<close>; closing a channel
  twice panics, so a count above 1 is a panic. \<open>actions\<close> lists the sockets opened and
  the goroutines spawned. \<open>returned\<close>: the monitor has returned. \<open>blockedOnSend\<close>:
  \<^verbatim>\<open>startReceiver\<close> could not bind the port and sends on \<^verbatim>\<open>inboundDied\<close> in the
  goroutine that is the channel's only receiver.
\<close>

record ctxtState =
  shuttingDown :: bool
  lastRestartAttempt :: int
  restartTimer :: "int option"
  returned :: bool
  blockedOnSend :: bool
  port :: int
  conn :: "nat option"
  socketsOpened :: nat
  externalShutdownNotification :: bool
  outboundDied :: bool
  inboundDied :: bool
  externalCloses :: nat
  nilCloses :: nat
  connCloses :: nat
  internalCloses :: nat
  completeCloses :: nat
  actions :: "monitorAction list"

text \<open>
  What the select of \<^verbatim>\<open>monitor\<close> can receive. The timer's event says whether the port
  can be bound at that moment.
\<close>

datatype monitorEvent = ExternalShutdown | OutboundDied | InboundDied | RestartTimerFired bool

text \<open>\<^verbatim>\<open>int(math.Max(30 - time.Since(lastRestartAttempt).Seconds(), 0))\<close>.\<close>

definition restartTimerSeconds :: "int \<Rightarrow> int \<Rightarrow> int" where
  "restartTimerSeconds now lastRestart = max (30 - (now - lastRestart)) 0"

text \<open>\<^verbatim>\<open>startReceiver\<close> and \<^verbatim>\<open>startRxAndTx\<close>.\<close>

definition startReceiver :: "bool \<Rightarrow> ctxtState \<Rightarrow> ctxtState" where
  "startReceiver bindOk st =
     (if bindOk
      then st\<lparr>conn := Some (Suc (socketsOpened st)), socketsOpened := Suc (socketsOpened st),
              actions := actions st @ [ListenUDP (port st), SpawnListen]\<rparr>
      else st\<lparr>conn := None, actions := actions st @ [ListenUDP (port st)],
              blockedOnSend := True\<rparr>)"

definition startRxAndTx :: "bool \<Rightarrow> ctxtState \<Rightarrow> ctxtState" where
  "startRxAndTx bindOk st =
     (let st1 = startReceiver bindOk (st\<lparr>inboundDied := True\<rparr>)
      in if blockedOnSend st1 then st1
         else st1\<lparr>outboundDied := True, actions := actions st1 @ [SpawnProcessOutboundQueue]\<rparr>)"

text \<open>
  The loop of \<^verbatim>\<open>monitor\<close>: \<open>monitor_loopHead\<close> is the \<^verbatim>\<open>if\<close> that opens each
  iteration, \<open>monitor_select\<close> the case of the select that an event takes (\<open>None\<close>
  when its channel is nil or has nothing to deliver), and \<open>monitor_step\<close> takes the
  monitor from one select to the next.
\<close>

definition monitor_loopHead :: "int \<Rightarrow> ctxtState \<Rightarrow> ctxtState" where
  "monitor_loopHead now st =
     (if \<not> outboundDied st \<and> \<not> inboundDied st then
        (if shuttingDown st
         then st\<lparr>completeCloses := completeCloses st + 1, returned := True\<rparr>
         else st\<lparr>restartTimer := Some (restartTimerSeconds now (lastRestartAttempt st))\<rparr>)
      else st)"

fun monitor_select :: "variant \<Rightarrow> monitorEvent \<Rightarrow> ctxtState \<Rightarrow> ctxtState option" where
  "monitor_select v ExternalShutdown st =
     (if externalShutdownNotification st \<and> 0 < externalCloses st
      then Some (st\<lparr>externalShutdownNotification := False,
                   shuttingDown := True,
                   connCloses := (if conn st \<noteq> None then connCloses st + 1 else connCloses st),
                   internalCloses := internalCloses st + 1\<rparr>)
      else None)"
| "monitor_select v OutboundDied st =
     (if outboundDied st then Some (st\<lparr>outboundDied := False\<rparr>) else None)"
| "monitor_select v InboundDied st =
     (if inboundDied st then Some (st\<lparr>inboundDied := False\<rparr>) else None)"
| "monitor_select V1 (RestartTimerFired bindOk) st =
     (if restartTimer st \<noteq> None
      then Some (startRxAndTx bindOk (st\<lparr>restartTimer := None\<rparr>))
      else None)"
| "monitor_select V2 (RestartTimerFired bindOk) st =
     (if restartTimer st \<noteq> None then Some (st\<lparr>restartTimer := None\<rparr>) else None)"

definition monitor_step :: "variant \<Rightarrow> int \<Rightarrow> monitorEvent \<Rightarrow> ctxtState \<Rightarrow> ctxtState option" where
  "monitor_step v now ev st =
     (if returned st \<or> blockedOnSend st then None
      else (case monitor_select v ev st of
              None \<Rightarrow> None
            | Some st' \<Rightarrow> Some (if blockedOnSend st' then st' else monitor_loopHead now st')))"

text \<open>
  The context as \<^verbatim>\<open>newContext\<close> (first variant) and \<^verbatim>\<open>initContext\<close> (second
  variant, which starts receiver and transmitter itself) leave it when the monitor waits
  in its first select. \<^verbatim>\<open>initContext\<close> returns only when the port could be bound:
  otherwise it waits for ever in \<^verbatim>\<open>startReceiver\<close>.
\<close>

definition newCtxtState :: "int \<Rightarrow> ctxtState" where
  "newCtxtState p =
     \<lparr>shuttingDown = False, lastRestartAttempt = 0, restartTimer = None, returned = False,
      blockedOnSend = False, port = p, conn = None, socketsOpened = 0,
      externalShutdownNotification = True, outboundDied = False, inboundDied = False,
      externalCloses = 0, nilCloses = 0, connCloses = 0, internalCloses = 0,
      completeCloses = 0, actions = []\<rparr>"

definition newContext :: "int \<Rightarrow> int \<Rightarrow> ctxtState" where
  "newContext p now = monitor_loopHead now (newCtxtState p)"

definition initContext :: "int \<Rightarrow> int \<Rightarrow> ctxtState" where
  "initContext p now = monitor_loopHead now (startRxAndTx True (newCtxtState p))"

text \<open>
  "RestartScheduled": both sides have died, no shutdown is pending, the timer is set.
\<close>

definition restartScheduled :: ctxtState where
  "restartScheduled =
     \<lparr>shuttingDown = False, lastRestartAttempt = 0, restartTimer = Some 0, returned = False,
      blockedOnSend = False, port = 161, conn = Some 1, socketsOpened = 1,
      externalShutdownNotification = True, outboundDied = False, inboundDied = False,
      externalCloses = 0, nilCloses = 0, connCloses = 0, internalCloses = 0,
      completeCloses = 0, actions = [ListenUDP 161, SpawnListen, SpawnProcessOutboundQueue]\<rparr>"



text \<open>
  C6 fails on the code. In the second variant a context whose two sides die reaches
  \<open>restartScheduled\<close>; when the timer fires there, the select only clears the timer:
  no socket is opened, nothing is spawned, both channels stay nil, and the next iteration
  sets the timer again, so the monitor is back where it was. The first variant does open
  a socket and spawn both sides. Neither variant assigns \<^verbatim>\<open>lastRestartAttempt\<close>.
\<close>

theorem restart_timer_does_not_restart:
  "monitor_step V2 1000 InboundDied (initContext 161 1000)
     = Some ((initContext 161 1000)\<lparr>inboundDied := False\<rparr>)
   \<and> monitor_step V2 1001 OutboundDied ((initContext 161 1000)\<lparr>inboundDied := False\<rparr>)
       = Some restartScheduled
   \<and> monitor_select V2 (RestartTimerFired True) restartScheduled
       = Some (restartScheduled\<lparr>restartTimer := None\<rparr>)
   \<and> monitor_step V2 1001 (RestartTimerFired True) restartScheduled = Some restartScheduled
   \<and> monitor_select V1 (RestartTimerFired True) restartScheduled
       = Some (restartScheduled
                \<lparr>restartTimer := None, conn := Some 2, socketsOpened := 2,
                 outboundDied := True, inboundDied := True,
                 actions := actions restartScheduled
                    @ [ListenUDP 161, SpawnListen, SpawnProcessOutboundQueue]\<rparr>)
   \<and> lastRestartAttempt restartScheduled = 0"
  by (simp add: monitor_step_def monitor_loopHead_def initContext_def newCtxtState_def
      startRxAndTx_def startReceiver_def restartScheduled_def restartTimerSeconds_def Let_def)


subsection \<open>Shutdown\<close>

text \<open>
  \<^verbatim>\<open>Shutdown\<close> (second variant, lines 593 to 598) runs
  \<^verbatim>\<open>close(externalShutdownNotification); <-shutDownComplete\<close> under a
  \<^verbatim>\<open>sync.Once\<close>. Go's \<^verbatim>\<open>Once.Do(f)\<close> runs \<open>f\<close> in the first call only, and no
  call of \<^verbatim>\<open>Do\<close> returns before that one run of \<open>f\<close> has returned. A caller is
  \<open>Idle\<close> before it calls, \<open>Closing\<close> when it has won the \<^verbatim>\<open>Once\<close> and is about
  to close the channel, \<open>AwaitComplete\<close> while it waits on \<^verbatim>\<open>shutDownComplete\<close>,
  \<open>AwaitOnce\<close> while it waits inside \<^verbatim>\<open>Do\<close> for the winner, and \<open>Returned\<close>
  at the end.
\<close>

datatype onceState = OnceFresh | OnceRunning nat | OnceDone

datatype callerPc = Idle | Closing | AwaitComplete | AwaitOnce | Returned

record shutdownSystem =
  ctxt :: ctxtState
  shutdownSync :: onceState
  pc :: "nat \<Rightarrow> callerPc"

text \<open>
  The callers and the monitor run concurrently: a run of the system is any interleaving
  of their steps. \<open>CallShutdown c\<close>: caller \<open>c\<close> enters \<^verbatim>\<open>Do\<close>.
  \<open>CloseExternal c\<close>: the winner closes the channel. \<open>ReceiveComplete c\<close>: it
  receives from the closed \<^verbatim>\<open>shutDownComplete\<close> and returns. \<open>OnceReleased c\<close>: a
  waiting caller returns from \<^verbatim>\<open>Do\<close>. \<open>Monitor ev now\<close>: a step of the second
  variant's monitor.
\<close>

datatype sysEvent =
    CallShutdown nat
  | CloseExternal nat
  | ReceiveComplete nat
  | OnceReleased nat
  | Monitor monitorEvent int

fun sysStep :: "shutdownSystem \<Rightarrow> sysEvent \<Rightarrow> shutdownSystem option" where
  "sysStep s (CallShutdown c) =
     (if pc s c \<noteq> Idle then None
      else (case shutdownSync s of
              OnceFresh \<Rightarrow> Some (s\<lparr>shutdownSync := OnceRunning c, pc := (pc s)(c := Closing)\<rparr>)
            | OnceRunning _ \<Rightarrow> Some (s\<lparr>pc := (pc s)(c := AwaitOnce)\<rparr>)
            | OnceDone \<Rightarrow> Some (s\<lparr>pc := (pc s)(c := Returned)\<rparr>)))"
| "sysStep s (CloseExternal c) =
     (if pc s c \<noteq> Closing then None
      else Some (s\<lparr>ctxt :=
                     (if externalShutdownNotification (ctxt s)
                      then (ctxt s)\<lparr>externalCloses := externalCloses (ctxt s) + 1\<rparr>
                      else (ctxt s)\<lparr>nilCloses := nilCloses (ctxt s) + 1\<rparr>),
                   pc := (pc s)(c := AwaitComplete)\<rparr>))"
| "sysStep s (ReceiveComplete c) =
     (if pc s c = AwaitComplete \<and> 0 < completeCloses (ctxt s)
      then Some (s\<lparr>shutdownSync := OnceDone, pc := (pc s)(c := Returned)\<rparr>)
      else None)"
| "sysStep s (OnceReleased c) =
     (if pc s c = AwaitOnce \<and> shutdownSync s = OnceDone
      then Some (s\<lparr>pc := (pc s)(c := Returned)\<rparr>)
      else None)"
| "sysStep s (Monitor ev now) =
     (case monitor_step V2 now ev (ctxt s) of
        None \<Rightarrow> None
      | Some st \<Rightarrow> Some (s\<lparr>ctxt := st\<rparr>))"

fun run :: "shutdownSystem \<Rightarrow> sysEvent list \<Rightarrow> shutdownSystem option" where
  "run s [] = Some s"
| "run s (ev # evs) = (case sysStep s ev of None \<Rightarrow> None | Some s' \<Rightarrow> run s' evs)"

definition newSystem :: "int \<Rightarrow> int \<Rightarrow> shutdownSystem" where
  "newSystem p now = \<lparr>ctxt = initContext p now, shutdownSync = OnceFresh, pc = (\<lambda>_. Idle)\<rparr>"

text \<open>The invariants of the monitor, of the \<^verbatim>\<open>Once\<close> and of each caller.\<close>

definition ctxtInv :: "ctxtState \<Rightarrow> bool" where
  "ctxtInv st =
     (nilCloses st = 0 \<and> conn st \<noteq> None \<and> \<not> blockedOnSend st
      \<and> (shuttingDown st \<or> externalShutdownNotification st)
      \<and> (if shuttingDown st
          then \<not> externalShutdownNotification st \<and> externalCloses st = 1
               \<and> connCloses st = 1 \<and> internalCloses st = 1
               \<and> (if returned st then completeCloses st = 1 else completeCloses st = 0)
               \<and> (returned st \<or> outboundDied st \<or> inboundDied st)
          else externalShutdownNotification st \<and> externalCloses st \<le> 1
               \<and> connCloses st = 0 \<and> internalCloses st = 0 \<and> completeCloses st = 0
               \<and> \<not> returned st))"

definition callerOk :: "shutdownSystem \<Rightarrow> nat \<Rightarrow> bool" where
  "callerOk s d =
     (case shutdownSync s of
        OnceFresh \<Rightarrow> pc s d = Idle
      | OnceRunning c \<Rightarrow>
          (if d = c then pc s d = Closing \<or> pc s d = AwaitComplete
           else pc s d = Idle \<or> pc s d = AwaitOnce)
      | OnceDone \<Rightarrow> pc s d = Idle \<or> pc s d = AwaitOnce \<or> pc s d = Returned)"

definition ownerOk :: "shutdownSystem \<Rightarrow> bool" where
  "ownerOk s =
     (case shutdownSync s of
        OnceFresh \<Rightarrow> externalCloses (ctxt s) = 0
      | OnceRunning c \<Rightarrow>
          (if pc s c = Closing then externalCloses (ctxt s) = 0 else externalCloses (ctxt s) = 1)
      | OnceDone \<Rightarrow> externalCloses (ctxt s) = 1 \<and> completeCloses (ctxt s) = 1)"

lemma ctxtInv_initContext: "ctxtInv (initContext p now)"
  by (simp add: ctxtInv_def initContext_def newCtxtState_def startRxAndTx_def startReceiver_def
      monitor_loopHead_def Let_def)

lemma ctxtInv_monitor_step:
  assumes "ctxtInv st" and "monitor_step V2 now ev st = Some st'"
  shows "ctxtInv st' \<and> externalCloses st' = externalCloses st
         \<and> (completeCloses st = 1 \<longrightarrow> completeCloses st' = 1)"
proof (cases ev)
  case ExternalShutdown
  then show ?thesis
    using assms
    by (auto simp: ctxtInv_def monitor_step_def monitor_loopHead_def split: if_splits)
next
  case OutboundDied
  then show ?thesis
    using assms
    by (auto simp: ctxtInv_def monitor_step_def monitor_loopHead_def split: if_splits)
next
  case InboundDied
  then show ?thesis
    using assms
    by (auto simp: ctxtInv_def monitor_step_def monitor_loopHead_def split: if_splits)
next
  case (RestartTimerFired b)
  then show ?thesis
    using assms
    by (auto simp: ctxtInv_def monitor_step_def monitor_loopHead_def split: if_splits)
qed

definition sysInv :: "shutdownSystem \<Rightarrow> bool" where
  "sysInv s = (ctxtInv (ctxt s) \<and> ownerOk s \<and> (\<forall>d. callerOk s d))"

lemma externalCloses_initContext: "externalCloses (initContext p now) = 0"
  by (simp add: initContext_def newCtxtState_def startRxAndTx_def startReceiver_def
      monitor_loopHead_def Let_def)

lemma sysInv_newSystem: "sysInv (newSystem p now)"
  by (simp add: sysInv_def newSystem_def ownerOk_def callerOk_def ctxtInv_initContext
      externalCloses_initContext)

lemma step_ctxtInv:
  assumes "ctxtInv (ctxt s)" and "ownerOk s" and "callerOk s c"
    and "sysStep s ev = Some s'" and "ev = CloseExternal c \<or> (\<forall>d. ev \<noteq> CloseExternal d)"
  shows "ctxtInv (ctxt s')"
proof (cases ev)
  case (CallShutdown d)
  then show ?thesis
    using assms(1,4) by (auto split: if_splits onceState.splits)
next
  case (CloseExternal d)
  then have d: "d = c"
    using assms(5) by simp
  have pc: "pc s c = Closing"
    using assms(4) CloseExternal d by (simp split: if_splits)
  then have "externalCloses (ctxt s) = 0 \<and> \<not> shuttingDown (ctxt s)"
    using assms(1,2,3) by (auto simp: ownerOk_def callerOk_def ctxtInv_def split: onceState.splits if_splits)
  then show ?thesis
    using assms(1,4) CloseExternal d pc by (auto simp: ctxtInv_def split: if_splits)
next
  case (ReceiveComplete d)
  then show ?thesis
    using assms(1,4) by (auto split: if_splits)
next
  case (OnceReleased d)
  then show ?thesis
    using assms(1,4) by (auto split: if_splits)
next
  case (Monitor mev now)
  then show ?thesis
    using assms(1,4) ctxtInv_monitor_step [OF assms(1)] by (auto split: option.splits)
qed

lemma step_ownerOk:
  assumes "ctxtInv (ctxt s)" and "ownerOk s" and "\<forall>d. callerOk s d"
    and "sysStep s ev = Some s'"
  shows "ownerOk s'"
proof (cases ev)
  case (CallShutdown c)
  have "callerOk s c"
    using assms(3) by blast
  then show ?thesis
    using assms(2,4) CallShutdown
    by (auto simp: ownerOk_def callerOk_def split: if_splits onceState.splits)
next
  case (CloseExternal c)
  have "callerOk s c"
    using assms(3) by blast
  then show ?thesis
    using assms(1,2,4) CloseExternal
    by (auto simp: ownerOk_def callerOk_def ctxtInv_def split: if_splits onceState.splits)
next
  case (ReceiveComplete c)
  have "callerOk s c"
    using assms(3) by blast
  then show ?thesis
    using assms(1,2,4) ReceiveComplete
    by (auto simp: ownerOk_def callerOk_def ctxtInv_def split: if_splits onceState.splits)
next
  case (OnceReleased c)
  have "callerOk s c"
    using assms(3) by blast
  then show ?thesis
    using assms(2,4) OnceReleased
    by (auto simp: ownerOk_def callerOk_def split: if_splits onceState.splits)
next
  case (Monitor mev now)
  then obtain st where st: "monitor_step V2 now mev (ctxt s) = Some st" and s': "s' = s\<lparr>ctxt := st\<rparr>"
    using assms(4) by (auto split: option.splits)
  from ctxtInv_monitor_step [OF assms(1) st]
  show ?thesis
    using assms(2) by (auto simp: ownerOk_def s' split: onceState.splits if_splits)
qed

lemma step_callerOk:
  assumes "\<forall>d. callerOk s d" and "sysStep s ev = Some s'"
  shows "callerOk s' d"
proof -
  have d: "callerOk s d"
    using assms(1) by blast
  show ?thesis
  proof (cases ev)
    case (CallShutdown c)
    have "callerOk s c"
      using assms(1) by blast
    then show ?thesis
      using d assms(2) CallShutdown
      by (auto simp: callerOk_def split: if_splits onceState.splits)
  next
    case (CloseExternal c)
    have "callerOk s c"
      using assms(1) by blast
    then show ?thesis
      using d assms(2) CloseExternal
      by (auto simp: callerOk_def split: if_splits onceState.splits)
  next
    case (ReceiveComplete c)
    have "callerOk s c"
      using assms(1) by blast
    then show ?thesis
      using d assms(2) ReceiveComplete
      by (auto simp: callerOk_def split: if_splits onceState.splits)
  next
    case (OnceReleased c)
    have "callerOk s c"
      using assms(1) by blast
    then show ?thesis
      using d assms(2) OnceReleased
      by (auto simp: callerOk_def split: if_splits onceState.splits)
  next
    case (Monitor mev now)
    then show ?thesis
      using d assms(2) by (auto simp: callerOk_def split: option.splits onceState.splits)
  qed
qed

lemma sysInv_step:
  assumes "sysInv s" and "sysStep s ev = Some s'"
  shows "sysInv s'"
proof -
  have c: "ctxtInv (ctxt s)" and o: "ownerOk s" and a: "\<forall>d. callerOk s d"
    using assms(1) by (simp_all add: sysInv_def)
  have "ctxtInv (ctxt s')"
  proof (cases "\<exists>c. ev = CloseExternal c")
    case True
    then obtain c where "ev = CloseExternal c" by blast
    then show ?thesis
      using step_ctxtInv [OF c o _ assms(2), of c] a by blast
  next
    case False
    then show ?thesis
      using step_ctxtInv [OF c o _ assms(2), of 0] a by blast
  qed
  moreover have "ownerOk s'"
    using step_ownerOk [OF c o a assms(2)] .
  moreover have "\<forall>d. callerOk s' d"
    using step_callerOk [OF a assms(2)] by blast
  ultimately show ?thesis
    by (simp add: sysInv_def)
qed

lemma sysInv_run:
  "sysInv s \<Longrightarrow> run s evs = Some s' \<Longrightarrow> sysInv s'"
proof (induction evs arbitrary: s)
  case Nil
  then show ?case by simp
next
  case (Cons ev evs)
  then obtain s1 where "sysStep s ev = Some s1" "run s1 evs = Some s'"
    by (auto split: option.splits)
  then show ?case
    using Cons.IH sysInv_step [OF Cons.prems(1)] by blast
qed

text \<open>
  C10. In every run of the system, whatever the number of calls and their
  interleaving with the monitor: \<^verbatim>\<open>externalShutdownNotification\<close> is closed at most
  once and never through a nil field, the socket is closed by the shutdown case at most
  once, \<^verbatim>\<open>internalShutdownNotification\<close> is closed at most once and
  \<^verbatim>\<open>shutDownComplete\<close> is closed at most once; and when a caller has returned, each of
  the four has happened exactly once.
\<close>

theorem shutdown_runs_once:
  assumes "run (newSystem p now) evs = Some s"
  shows "externalCloses (ctxt s) \<le> 1 \<and> connCloses (ctxt s) \<le> 1
       \<and> internalCloses (ctxt s) \<le> 1 \<and> completeCloses (ctxt s) \<le> 1
       \<and> nilCloses (ctxt s) = 0
       \<and> (pc s c = Returned \<longrightarrow>
            externalCloses (ctxt s) = 1 \<and> connCloses (ctxt s) = 1
            \<and> internalCloses (ctxt s) = 1 \<and> completeCloses (ctxt s) = 1)"
proof -
  have inv: "sysInv s"
    using sysInv_run [OF sysInv_newSystem assms] .
  then have c: "ctxtInv (ctxt s)" and o: "ownerOk s" and a: "callerOk s c"
    by (simp_all add: sysInv_def)
  have "pc s c = Returned \<Longrightarrow> completeCloses (ctxt s) = 1"
    using o a by (auto simp: ownerOk_def callerOk_def split: onceState.splits if_splits)
  then show ?thesis
    using c by (auto simp: ctxtInv_def split: if_splits)
qed


text \<open>
  Two concurrent callers and a late third one: all return, after one shutdown sequence.
\<close>

definition twoCallers :: "sysEvent list" where
  "twoCallers =
     [CallShutdown 0, CallShutdown 1, CloseExternal 0, Monitor ExternalShutdown 1005,
      Monitor InboundDied 1005, Monitor OutboundDied 1005, ReceiveComplete 0, OnceReleased 1,
      CallShutdown 2]"


theorem shutdown_runs_once_witness:
  "\<exists>s. run (newSystem 161 1000) twoCallers = Some s
      \<and> pc s 0 = Returned \<and> pc s 1 = Returned \<and> pc s 2 = Returned
      \<and> externalCloses (ctxt s) = 1 \<and> connCloses (ctxt s) = 1
      \<and> internalCloses (ctxt s) = 1 \<and> completeCloses (ctxt s) = 1
      \<and> nilCloses (ctxt s) = 0"
proof -
  obtain s where r: "run (newSystem 161 1000) twoCallers = Some s" and p: "pc s 1 = Returned"
      "pc s 0 = Returned" "pc s 2 = Returned"
    by (simp add: twoCallers_def newSystem_def initContext_def newCtxtState_def startRxAndTx_def
        startReceiver_def monitor_loopHead_def monitor_step_def restartTimerSeconds_def Let_def)
  show ?thesis
    using r p shutdown_runs_once [OF r, of 1] by simp
qed

end
